theory Spec2Isabelle
  imports Main "HOL-Library.Word" "HOL-Library.Signed_Division"
begin

section \<open>Shared values\<close>

type_synonym byte = "8 word"

text \<open>
  Go's \<open>error\<close> values, one constructor for each place of the sources that makes or
  passes one. A nil error is \<open>None\<close> of \<open>error option\<close>.
\<close>

datatype error =
    ErrNoRows
  | ErrTxDone
  | DriverError string
  | MetadataKeyError string error
  | TransportError string
  | OutOfRetries string
  | NotImplemented

section \<open>cmd/build/main.go: the retrying fetcher\<close>

text \<open>
  \<open>time.Duration\<close> is an int64 count of nanoseconds. The values the fetcher computes
  stay below \<open>2 * 30 * Second\<close>, far inside int64, so they are carried as \<open>int\<close>.
\<close>

type_synonym duration = int

definition Millisecond :: duration where
  "Millisecond = 1000000"

definition Second :: duration where
  "Second = 1000 * Millisecond"

record request =
  URL :: string

record response =
  StatusCode :: int
  Body :: "byte list"

text \<open>
  The client is the network seen from the caller: the answer \<open>client.Do\<close> gives to the
  k-th call made on it, an error or a response. The effects of the fetcher are the calls
  of \<open>client.Do\<close> it makes and the waits it passes to \<open>time.Sleep\<close>.
\<close>

type_synonym client = "nat \<Rightarrow> error + response"

record net =
  requests :: nat
  slept :: "duration list"

text \<open>The body of the \<open>for i := 0; i < nRetries; i++\<close> loop, with the loop variables.\<close>

function retry_loop ::
  "client \<Rightarrow> request \<Rightarrow> int \<Rightarrow> int \<Rightarrow> duration \<Rightarrow> net \<Rightarrow> (response option \<times> error option) \<times> net"
where
  "retry_loop client req nRetries i sleep w =
     (if i < nRetries then
        (case client (requests w) of
           Inl err \<Rightarrow> ((None, Some err), w\<lparr>requests := requests w + 1\<rparr>)
         | Inr resp \<Rightarrow>
             if StatusCode resp = 200
             then ((Some resp, None), w\<lparr>requests := requests w + 1\<rparr>)
             else if StatusCode resp > 500 \<and> StatusCode resp < 600
             then retry_loop client req nRetries (i + 1)
                    (if sleep * 2 > 30 then 30 * Second else sleep * 2)
                    (w\<lparr>requests := requests w + 1, slept := slept w @ [sleep]\<rparr>)
             else retry_loop client req nRetries (i + 1) sleep
                    (w\<lparr>requests := requests w + 1\<rparr>))
      else ((None, Some (OutOfRetries (URL req))), w))"
  by pat_completeness auto
termination
  by (relation "measure (\<lambda>(client, req, nRetries, i, sleep, w). nat (nRetries - i))") auto

declare retry_loop.simps [simp del]

definition doHTTPWithRetry ::
  "client \<Rightarrow> request \<Rightarrow> int \<Rightarrow> net \<Rightarrow> (response option \<times> error option) \<times> net"
where
  "doHTTPWithRetry client req nRetries w =
     retry_loop client req nRetries 0 (500 * Millisecond) w"


section \<open>The archive file and the SQL driver\<close>

text \<open>
  The sources reach the archive through \<open>database/sql\<close> and SQLite. The model keeps what
  the SQL text of the sources says: the three tables with their unique indices, and the
  view \<open>tiles\<close> that joins \<open>map\<close> and \<open>images\<close>. An INTEGER column holds an \<open>int\<close>, a TEXT
  column a \<open>string\<close>, a BLOB column a byte list; rows are kept in insertion order.

  Every call that reaches the driver can fail for reasons outside the program (disk, locks).
  \<open>faults\<close> is the script of what the environment deals to the next driver calls:
  \<open>Some msg\<close> makes the call fail with that message, \<open>None\<close> or an exhausted script lets it go
  through. \<open>commits\<close> counts the calls of \<open>sql.Tx.Commit\<close> that went through.
\<close>

type_synonym coord = "int \<times> int \<times> int"

record database =
  has_schema :: bool
  map_table :: "(coord \<times> string) list"
  images_table :: "(string \<times> byte list) list"
  metadata_table :: "(string \<times> string) list"
  faults :: "string option list"
  commits :: nat

definition driver_call :: "database \<Rightarrow> string option \<times> database" where
  "driver_call d =
     (case faults d of
        [] \<Rightarrow> (None, d)
      | f # fs \<Rightarrow> (f, d\<lparr>faults := fs\<rparr>))"

text \<open>
  The script of \<open>CreateTiles\<close>: every statement is \<open>IF NOT EXISTS\<close>, so on a file that has
  the schema nothing changes, and on a file without it the tables start empty.
\<close>

definition exec_create_schema :: "database \<Rightarrow> error option \<times> database" where
  "exec_create_schema d =
     (case driver_call d of
        (Some msg, d') \<Rightarrow> (Some (DriverError msg), d')
      | (None, d') \<Rightarrow>
          (None, if has_schema d' then d'
                 else d'\<lparr>has_schema := True, map_table := [], images_table := [],
                         metadata_table := []\<rparr>))"

text \<open>
  \<open>INSERT INTO metadata (name, value) VALUES(?, ?)\<close> through \<open>o.db.Exec\<close>: a plain insert,
  committed at once, that the unique index \<open>name\<close> refuses when the name is there already.
  \<open>o.db.Exec\<close> runs on a connection of the pool other than the one of the open transaction.
  While that transaction holds the write lock of the file (\<open>locked\<close>), the insert waits for
  the busy timeout and fails with \<open>database is locked\<close>, before any constraint is looked at.
\<close>

definition exec_insert_metadata ::
  "bool \<Rightarrow> string \<Rightarrow> string \<Rightarrow> database \<Rightarrow> error option \<times> database"
where
  "exec_insert_metadata locked name val d =
     (case driver_call d of
        (Some msg, d') \<Rightarrow> (Some (DriverError msg), d')
      | (None, d') \<Rightarrow>
          if \<not> has_schema d' then (Some (DriverError ''no such table: metadata''), d')
          else if locked then (Some (DriverError ''database is locked''), d')
          else if name \<in> fst ` set (metadata_table d')
          then (Some (DriverError ''UNIQUE constraint failed: metadata.name''), d')
          else (None, d'\<lparr>metadata_table := metadata_table d' @ [(name, val)]\<rparr>))"

text \<open>
  A Go \<open>[]byte\<close> is nil or a sequence of bytes: \<open>None\<close> is the nil slice, \<open>Some []\<close> the empty
  slice that is not nil. The driver binds a nil slice as NULL and any other as a BLOB.
\<close>

type_synonym slice = "byte list option"

definition slice_bytes :: "slice \<Rightarrow> byte list" where
  "slice_bytes data = (case data of None \<Rightarrow> [] | Some bytes \<Rightarrow> bytes)"

text \<open>
  A transaction (\<open>*sql.Tx\<close>) holds the statements executed on it until \<open>Commit\<close> applies
  them to the file. \<open>INSERT OR REPLACE\<close> deletes the rows that collide on the unique index and
  appends the new row; a NULL for the column \<open>tile_data BLOB NOT NULL\<close>, which has no default,
  aborts the statement. A transaction on which \<open>Commit\<close> was called is finished, whether the
  commit went through or not, and refuses every later call with \<open>sql.ErrTxDone\<close>. A
  transaction that is not finished holds the write lock of the file from its first write on.
\<close>

datatype stmt =
    ReplaceImage string slice
  | ReplaceMap int int int string

record tx =
  pending :: "stmt list"
  finished :: bool

fun binds_null :: "stmt \<Rightarrow> bool" where
  "binds_null (ReplaceImage tileID data) = (data = None)"
| "binds_null (ReplaceMap z x y tileID) = False"

fun apply_stmt :: "stmt \<Rightarrow> database \<Rightarrow> database" where
  "apply_stmt (ReplaceImage tileID None) d = d"
| "apply_stmt (ReplaceImage tileID (Some bytes)) d =
     d\<lparr>images_table := filter (\<lambda>r. fst r \<noteq> tileID) (images_table d) @ [(tileID, bytes)]\<rparr>"
| "apply_stmt (ReplaceMap z x y tileID) d =
     d\<lparr>map_table := filter (\<lambda>r. fst r \<noteq> (z, x, y)) (map_table d) @ [((z, x, y), tileID)]\<rparr>"

definition write_locked :: "tx option \<Rightarrow> bool" where
  "write_locked open_tx =
     (case open_tx of
        None \<Rightarrow> False
      | Some t \<Rightarrow> \<not> finished t \<and> pending t \<noteq> [])"

definition db_begin :: "database \<Rightarrow> (error + tx) \<times> database" where
  "db_begin d =
     (case driver_call d of
        (Some msg, d') \<Rightarrow> (Inl (DriverError msg), d')
      | (None, d') \<Rightarrow> (Inr \<lparr>pending = [], finished = False\<rparr>, d'))"

definition tx_exec :: "stmt \<Rightarrow> tx \<Rightarrow> database \<Rightarrow> error option \<times> tx \<times> database" where
  "tx_exec st t d =
     (if finished t then (Some ErrTxDone, t, d)
      else case driver_call d of
             (Some msg, d') \<Rightarrow> (Some (DriverError msg), t, d')
           | (None, d') \<Rightarrow>
               if \<not> has_schema d' then (Some (DriverError ''no such table''), t, d')
               else if binds_null st
               then (Some (DriverError ''NOT NULL constraint failed: images.tile_data''), t, d')
               else (None, t\<lparr>pending := pending t @ [st]\<rparr>, d'))"

definition tx_commit :: "tx \<Rightarrow> database \<Rightarrow> error option \<times> tx \<times> database" where
  "tx_commit t d =
     (if finished t then (Some ErrTxDone, t, d)
      else case driver_call d of
             (Some msg, d') \<Rightarrow> (Some (DriverError msg), t\<lparr>finished := True\<rparr>, d')
           | (None, d') \<Rightarrow>
               (None, t\<lparr>finished := True\<rparr>,
                (fold apply_stmt (pending t) d')\<lparr>commits := commits d' + 1\<rparr>))"

definition db_close :: "database \<Rightarrow> error option \<times> database" where
  "db_close d =
     (case driver_call d of
        (Some msg, d') \<Rightarrow> (Some (DriverError msg), d')
      | (None, d') \<Rightarrow> (None, d'))"

text \<open>The rows of the view \<open>tiles\<close>: \<open>map JOIN images ON images.tile_id = map.tile_id\<close>.\<close>

definition tiles_view :: "database \<Rightarrow> (coord \<times> byte list) list" where
  "tiles_view d =
     concat (map (\<lambda>m. map (\<lambda>i. (fst m, snd i))
                          (filter (\<lambda>i. fst i = snd m) (images_table d)))
                 (map_table d))"


section \<open>tilepack/mbtiles_reader.go: the reader\<close>

text \<open>
  \<open>Tile\<close> is the tile type of package \<open>tilepack\<close>; the reader and \<open>cmd/serve\<close> fill its
  three fields with values of type \<open>uint\<close>. \<open>database/sql\<close> hands a \<open>uint\<close> argument to the
  driver as \<open>int64(rv.Uint())\<close>, the two's complement reading of its 64 bits.
\<close>

record Tile =
  Z :: "64 word"
  X :: "64 word"
  Y :: "64 word"

record TileData =
  Tile :: Tile
  Data :: "byte list option"

text \<open>
  The reader holds nothing but its database handle, so a reader is the database it reads.
  \<open>QueryRow(...).Scan(&data)\<close> of \<open>GetTile\<close>: the first row of the view at the coordinate,
  \<open>sql.ErrNoRows\<close> when there is none.
\<close>

definition query_tile_data :: "database \<Rightarrow> coord \<Rightarrow> (error + byte list) \<times> database" where
  "query_tile_data d c =
     (case driver_call d of
        (Some msg, d') \<Rightarrow> (Inl (DriverError msg), d')
      | (None, d') \<Rightarrow>
          if \<not> has_schema d' then (Inl (DriverError ''no such table: tiles''), d')
          else (case filter (\<lambda>r. fst r = c) (tiles_view d') of
                  [] \<Rightarrow> (Inl ErrNoRows, d')
                | r # rs \<Rightarrow> (Inr (snd r), d')))"

definition GetTile :: "database \<Rightarrow> Tile \<Rightarrow> (TileData option \<times> error option) \<times> database" where
  "GetTile d tile =
     (case query_tile_data d (sint (Z tile), sint (X tile), sint (Y tile)) of
        (Inl err, d') \<Rightarrow>
          if err = ErrNoRows then ((Some \<lparr>Tile = tile, Data = None\<rparr>, None), d')
          else ((None, Some err), d')
      | (Inr data, d') \<Rightarrow> ((Some \<lparr>Tile = tile, Data = Some data\<rparr>, None), d'))"

text \<open>
  \<open>rows.Scan(&z, &x, &y, &data)\<close> of \<open>VisitAllTiles\<close> converts column by column and stops at
  the first value that does not fit its destination; a \<open>uint\<close> takes no negative value. The
  destinations \<open>z\<close>, \<open>x\<close>, \<open>y\<close> live outside the loop and keep what they held; \<open>data\<close> is a
  fresh empty slice in each round. The loop only logs the error and calls the visitor all the
  same.
\<close>

definition scan_uint :: "int \<Rightarrow> 64 word option" where
  "scan_uint v = (if 0 \<le> v \<and> v < 2 ^ 64 then Some (word_of_int v) else None)"

fun scan_row ::
  "64 word \<times> 64 word \<times> 64 word \<Rightarrow> coord \<times> byte list \<Rightarrow> (64 word \<times> 64 word \<times> 64 word) \<times> byte list"
where
  "scan_row (z, x, y) ((rz, rx, ry), tile_data) =
     (case scan_uint rz of
        None \<Rightarrow> ((z, x, y), [])
      | Some z' \<Rightarrow>
          (case scan_uint rx of
             None \<Rightarrow> ((z', x, y), [])
           | Some x' \<Rightarrow>
               (case scan_uint ry of
                  None \<Rightarrow> ((z', x', y), [])
                | Some y' \<Rightarrow> ((z', x', y'), tile_data))))"

text \<open>
  The loop \<open>for rows.Next()\<close>: each \<open>Next\<close> is a driver call, and a failing one ends the loop
  like the end of the rows does, since \<open>rows.Err()\<close> is never read. The visitor returns
  nothing; what it does is a change of the state \<open>'s\<close> of its closure.
\<close>

fun visit_rows ::
  "(Tile \<Rightarrow> byte list \<Rightarrow> 's \<Rightarrow> 's) \<Rightarrow> (coord \<times> byte list) list \<Rightarrow> 64 word \<times> 64 word \<times> 64 word \<Rightarrow>
   database \<Rightarrow> 's \<Rightarrow> database \<times> 's"
where
  "visit_rows visitor [] zxy d s = (snd (driver_call d), s)"
| "visit_rows visitor (r # rs) zxy d s =
     (case driver_call d of
        (Some msg, d') \<Rightarrow> (d', s)
      | (None, d') \<Rightarrow>
          (case scan_row zxy r of
             ((z, x, y), data) \<Rightarrow>
               visit_rows visitor rs (z, x, y) d' (visitor \<lparr>Z = z, X = x, Y = y\<rparr> data s)))"

definition VisitAllTiles ::
  "database \<Rightarrow> (Tile \<Rightarrow> byte list \<Rightarrow> 's \<Rightarrow> 's) \<Rightarrow> 's \<Rightarrow> error option \<times> database \<times> 's"
where
  "VisitAllTiles d visitor s =
     (case driver_call d of
        (Some msg, d') \<Rightarrow> (Some (DriverError msg), d', s)
      | (None, d') \<Rightarrow>
          if \<not> has_schema d' then (Some (DriverError ''no such table: tiles''), d', s)
          else (case visit_rows visitor (tiles_view d') (0, 0, 0) d' s of
                  (d'', s') \<Rightarrow> (None, d'', s')))"


section \<open>The writer: mbtilesOutputter\<close>

text \<open>
  \<open>maptile.Tile\<close> of \<open>github.com/paulmach/orb\<close>: \<open>X\<close> and \<open>Y\<close> are \<open>uint32\<close>, \<open>Z\<close> is a
  \<open>maptile.Zoom\<close>, a \<open>uint32\<close>. A \<open>float64\<close> is carried as its 64 bits; the writer never
  computes on one. \<open>orb.Bound\<close> is a pair of points, \<open>orb.Point\<close> a pair of floats.
\<close>

record maptile =
  mX :: "32 word"
  mY :: "32 word"
  mZ :: "32 word"

type_synonym float64 = "64 word"
type_synonym point = "float64 \<times> float64"

record bound =
  bMin :: point
  bMax :: point

text \<open>
  What the writer takes from the Go runtime and the libraries, as parameters:
  \<^item> \<open>md5_hex\<close>: \<open>hex.EncodeToString\<close> of \<open>md5.Sum\<close>;
  \<^item> \<open>float_to_uint32\<close>: the result of converting a float64 that \<open>uint32\<close> cannot hold, which
    Go leaves to the implementation; it is asked for at zoom 32 and beyond;
  \<^item> \<open>sprintf_f\<close>: \<open>fmt.Sprintf\<close> of one float with the verb \<open>%f\<close>;
  \<^item> \<open>center\<close>, \<open>union\<close>: \<open>orb.Bound.Center\<close> and \<open>orb.Bound.Union\<close>;
  \<^item> \<open>range_pick\<close>: the order of \<open>range\<close> over a Go map, which Go leaves open: of the
    entries not yet visited, the index (modulo their number) of the one visited next.
\<close>

record platform =
  md5_hex :: "byte list \<Rightarrow> string"
  float_to_uint32 :: "32 word \<Rightarrow> 32 word"
  sprintf_f :: "float64 \<Rightarrow> string"
  center :: "bound \<Rightarrow> point"
  union :: "bound \<Rightarrow> bound \<Rightarrow> bound"
  range_pick :: "(string \<times> string) list \<Rightarrow> nat"

record mbtilesOutputter =
  db :: database
  txn :: "tx option"
  hasTiles :: bool
  batchCount :: int
  batchSize :: int
  bounds :: bound
  minZoom :: "32 word"
  maxZoom :: "32 word"

text \<open>
  \<open>sql.Open\<close> only records the name of the file; \<open>file\<close> is what the file named by \<open>dsn\<close>
  holds.
\<close>

definition NewMbtilesOutputter ::
  "database \<Rightarrow> int \<Rightarrow> bound \<Rightarrow> 32 word \<Rightarrow> 32 word \<Rightarrow> mbtilesOutputter"
where
  "NewMbtilesOutputter file bs b zmin zmax =
     \<lparr>db = file, txn = None, hasTiles = False, batchCount = 0, batchSize = bs,
      bounds = b, minZoom = zmin, maxZoom = zmax\<rparr>"

definition Close :: "mbtilesOutputter \<Rightarrow> error option \<times> mbtilesOutputter" where
  "Close o1 =
     (case (case txn o1 of
              None \<Rightarrow> (None, o1)
            | Some t \<Rightarrow>
                (case tx_commit t (db o1) of
                   (err, t', d') \<Rightarrow> (err, o1\<lparr>txn := Some t', db := d'\<rparr>))) of
        (err, o2) \<Rightarrow>
          (case db_close (db o2) of
             (Some err2, d') \<Rightarrow> (Some err2, o2\<lparr>db := d'\<rparr>)
           | (None, d') \<Rightarrow> (err, o2\<lparr>db := d'\<rparr>)))"

definition CreateTiles :: "mbtilesOutputter \<Rightarrow> error option \<times> mbtilesOutputter" where
  "CreateTiles o1 =
     (if hasTiles o1 then (None, o1)
      else case exec_create_schema (db o1) of
             (Some err, d') \<Rightarrow> (Some err, o1\<lparr>db := d'\<rparr>)
           | (None, d') \<Rightarrow> (None, o1\<lparr>db := d', hasTiles := True\<rparr>))"

text \<open>\<open>strconv.Itoa\<close>: the decimal digits of an integer.\<close>

function digits :: "nat \<Rightarrow> string" where
  "digits n =
     (if n < 10 then [char_of (48 + n)]
      else digits (n div 10) @ [char_of (48 + n mod 10)])"
  by pat_completeness auto
termination
  by (relation "measure id") auto

declare digits.simps [simp del]

definition Itoa :: "int \<Rightarrow> string" where
  "Itoa i = (if i < 0 then CHR ''-'' # digits (nat (- i)) else digits (nat i))"

text \<open>
  The loop \<open>for name, value := range metadata\<close> of \<open>AssignMetadata\<close>, over the entries not
  yet visited.
\<close>

function range_metadata ::
  "platform \<Rightarrow> bool \<Rightarrow> (string \<times> string) list \<Rightarrow> database \<Rightarrow> error option \<times> database"
where
  "range_metadata P locked entries d =
     (if entries = [] then (None, d)
      else case exec_insert_metadata locked
                  (fst (entries ! (range_pick P entries mod length entries)))
                  (snd (entries ! (range_pick P entries mod length entries))) d of
             (Some err, d') \<Rightarrow>
               (Some (MetadataKeyError
                        (fst (entries ! (range_pick P entries mod length entries))) err), d')
           | (None, d') \<Rightarrow>
               range_metadata P locked
                 (take (range_pick P entries mod length entries) entries @
                  drop (Suc (range_pick P entries mod length entries)) entries) d')"
  by pat_completeness auto
termination
proof (relation "measure (\<lambda>(P, locked, entries, d). length entries)")
  show "wf (measure (\<lambda>(P, locked, entries, d). length entries))"
    by simp
next
  fix P :: platform and locked :: bool and entries :: "(string \<times> string) list"
  fix d d' :: database
  assume ne: "entries \<noteq> []"
  then have "range_pick P entries mod length entries < length entries"
    by simp
  then show "((P, locked, take (range_pick P entries mod length entries) entries @
                  drop (Suc (range_pick P entries mod length entries)) entries, d'),
              (P, locked, entries, d)) \<in> measure (\<lambda>(P, locked, entries, d). length entries)"
    by simp
qed

declare range_metadata.simps [simp del]

definition AssignMetadata ::
  "platform \<Rightarrow> bound \<Rightarrow> 32 word \<Rightarrow> 32 word \<Rightarrow> mbtilesOutputter \<Rightarrow> error option \<times> mbtilesOutputter"
where
  "AssignMetadata P b zmin zmax o1 =
     (let str_bounds = sprintf_f P (fst (bMin b)) @ '','' @ sprintf_f P (snd (bMin b)) @ '','' @
                       sprintf_f P (fst (bMax b)) @ '','' @ sprintf_f P (snd (bMax b));
          str_center = sprintf_f P (fst (center P b)) @ '','' @ sprintf_f P (snd (center P b));
          str_minzoom = Itoa (uint zmin);
          str_maxzoom = Itoa (uint zmax);
          metadata = [(''bounds'', str_bounds), (''center'', str_center),
                      (''minzoom'', str_minzoom), (''maxzoom'', str_maxzoom)]
      in case range_metadata P (write_locked (txn o1)) metadata (db o1) of
           (err, d') \<Rightarrow> (err, o1\<lparr>db := d'\<rparr>))"


text \<open>
  A call of \<open>Save\<close> returns an error, nil or not, or it panics: when \<open>batchSize\<close> is zero,
  at the remainder \<open>o.batchCount % o.batchSize\<close>. In either case the writer is left in a
  state, which the model returns beside the outcome. \<open>md5.Sum\<close> of a nil slice is the digest
  of no bytes.
\<close>

datatype 'a outcome = Returns 'a | Panics string

text \<open>
  \<open>uint32(math.Pow(2.0, float64(tile.Z)))\<close>: the power is exact, and fits \<open>uint32\<close> up to
  zoom 31.
\<close>

definition pow2_uint32 :: "platform \<Rightarrow> 32 word \<Rightarrow> 32 word" where
  "pow2_uint32 P z = (if unat z < 32 then 2 ^ unat z else float_to_uint32 P z)"

text \<open>Go's \<open>int\<close> is 64 bits wide here: \<open>go_int\<close> wraps a sum into it.\<close>

definition go_int :: "int \<Rightarrow> int" where
  "go_int n = (n + 2 ^ 63) mod 2 ^ 64 - 2 ^ 63"

definition Save ::
  "platform \<Rightarrow> maptile \<Rightarrow> slice \<Rightarrow> mbtilesOutputter \<Rightarrow> error option outcome \<times> mbtilesOutputter"
where
  "Save P tile data o0 =
     (case CreateTiles o0 of
        (Some err, o1) \<Rightarrow> (Returns (Some err), o1)
      | (None, o1) \<Rightarrow>
     (case AssignMetadata P (bounds o1) (minZoom o1) (maxZoom o1) o1 of
        (Some err, o2) \<Rightarrow> (Returns (Some err), o2)
      | (None, o2) \<Rightarrow>
     (case (case txn o2 of
              Some t \<Rightarrow> (Inr t, db o2)
            | None \<Rightarrow> db_begin (db o2)) of
        (Inl err, d3) \<Rightarrow> (Returns (Some err), o2\<lparr>db := d3\<rparr>)
      | (Inr t3, d3) \<Rightarrow>
     (let tileID = md5_hex P (slice_bytes data);
          invertedY = pow2_uint32 P (mZ tile) - 1 - mY tile
      in
      case tx_exec (ReplaceImage tileID data) t3 d3 of
        (Some err, t4, d4) \<Rightarrow> (Returns (Some err), o2\<lparr>db := d4, txn := Some t4\<rparr>)
      | (None, t4, d4) \<Rightarrow>
     (case tx_exec (ReplaceMap (uint (mZ tile)) (uint (mX tile)) (uint invertedY) tileID) t4 d4 of
        (Some err, t5, d5) \<Rightarrow> (Returns (Some err), o2\<lparr>db := d5, txn := Some t5\<rparr>)
      | (None, t5, d5) \<Rightarrow>
     (let n = go_int (batchCount o2 + 1) in
      if batchSize o2 = 0
      then (Panics ''integer divide by zero'', o2\<lparr>db := d5, txn := Some t5, batchCount := n\<rparr>)
      else if n smod batchSize o2 = 0 then
        (case tx_commit t5 d5 of
           (Some err, t6, d6) \<Rightarrow>
             (Returns (Some err), o2\<lparr>db := d6, txn := Some t6, batchCount := n\<rparr>)
         | (None, t6, d6) \<Rightarrow>
             (Returns None, o2\<lparr>db := d6, txn := None, batchCount := 0\<rparr>))
      else (Returns None, o2\<lparr>db := d5, txn := Some t5, batchCount := n\<rparr>)))))))"

text \<open>
  A run of calls of \<open>Save\<close> that all return nil: the writer after the last one, \<open>None\<close> as soon
  as one call returns an error or panics.
\<close>

fun save_all ::
  "platform \<Rightarrow> (maptile \<times> slice) list \<Rightarrow> mbtilesOutputter \<Rightarrow> mbtilesOutputter option"
where
  "save_all P [] o1 = Some o1"
| "save_all P ((tile, data) # calls) o1 =
     (case Save P tile data o1 of
        (Returns None, o2) \<Rightarrow> save_all P calls o2
      | (Returns (Some err), o2) \<Rightarrow> None
      | (Panics msg, o2) \<Rightarrow> None)"

section \<open>cmd/merge/main.go\<close>

text \<open>
  What \<open>main\<close> reads of a source before it copies tiles: the results of
  \<open>mbtilesReader.Metadata()\<close> and of its accessors \<open>Bounds\<close>, \<open>MinZoom\<close>, \<open>MaxZoom\<close>. They are
  inputs of the model; the zooms are \<open>uint\<close>, the type of \<open>outputMinZoom\<close> that \<open>min\<close> compares
  them with.
\<close>

record source_metadata =
  Bounds :: "error + bound"
  MinZoom :: "error + 64 word"
  MaxZoom :: "error + 64 word"

record input =
  inputFilename :: string
  archive :: database
  Metadata :: "error + source_metadata"

datatype fatal =
    MustSpecifyOutput
  | MustSpecifyInput
  | OutputExists string
  | NoMetadata string error
  | NoBounds string error
  | NoMinZoom string error
  | NoMaxZoom string error
  | CouldntCreateOutput error
  | CouldntReadTiles string error

text \<open>
  The first loop of \<open>main\<close>, with \<open>outputBounds\<close>, \<open>outputMinZoom\<close> and \<open>outputMaxZoom\<close> as its
  state and \<open>i\<close> the index of the source.
\<close>

fun read_inputs ::
  "platform \<Rightarrow> nat \<Rightarrow> input list \<Rightarrow> bound \<times> 64 word \<times> 64 word \<Rightarrow> fatal + bound \<times> 64 word \<times> 64 word"
where
  "read_inputs P i [] acc = Inr acc"
| "read_inputs P i (inp # rest) (outputBounds, outputMinZoom, outputMaxZoom) =
     (case Metadata inp of
        Inl err \<Rightarrow> Inl (NoMetadata (inputFilename inp) err)
      | Inr metadata \<Rightarrow>
     (case Bounds metadata of
        Inl err \<Rightarrow> Inl (NoBounds (inputFilename inp) err)
      | Inr b \<Rightarrow>
     (case MinZoom metadata of
        Inl err \<Rightarrow> Inl (NoMinZoom (inputFilename inp) err)
      | Inr zmin \<Rightarrow>
     (case MaxZoom metadata of
        Inl err \<Rightarrow> Inl (NoMaxZoom (inputFilename inp) err)
      | Inr zmax \<Rightarrow>
          read_inputs P (Suc i) rest
            (if i = 0 then b else union P outputBounds b,
             min outputMinZoom zmin,
             min outputMaxZoom zmax)))))"

text \<open>
  The closure that \<open>main\<close> hands to \<open>VisitAllTiles\<close> takes a \<open>maptile.Tile\<close> where the reader
  of \<open>mbtiles_reader.go\<close> passes a \<open>*Tile\<close>; the fields are converted one by one. The closure
  calls \<open>Save\<close> and drops what it returns. Its state is the writer, and the message of the
  panic once a call has panicked: nothing runs after a panic. The bytes come from
  \<open>rows.Scan\<close>, which fills the empty slice of the loop: they are never the nil slice.
\<close>

definition to_maptile :: "Tile \<Rightarrow> maptile" where
  "to_maptile t = \<lparr>mX = ucast (X t), mY = ucast (Y t), mZ = ucast (Z t)\<rparr>"

definition save_visitor ::
  "platform \<Rightarrow> Tile \<Rightarrow> byte list \<Rightarrow> string option \<times> mbtilesOutputter \<Rightarrow> string option \<times> mbtilesOutputter"
where
  "save_visitor P t data st =
     (case st of
        (Some msg, o1) \<Rightarrow> (Some msg, o1)
      | (None, o1) \<Rightarrow>
          (case Save P (to_maptile t) (Some data) o1 of
             (Panics msg, o2) \<Rightarrow> (Some msg, o2)
           | (Returns err, o2) \<Rightarrow> (None, o2)))"

text \<open>
  The second loop: one source after the other, each read to its end and then closed. Closing
  a source changes nothing of what the run leaves behind, and its error is dropped.
\<close>

fun copy_inputs ::
  "platform \<Rightarrow> input list \<Rightarrow> string option \<times> mbtilesOutputter \<Rightarrow>
   fatal option \<times> string option \<times> mbtilesOutputter"
where
  "copy_inputs P [] st = (None, st)"
| "copy_inputs P (inp # rest) st =
     (case VisitAllTiles (archive inp) (save_visitor P) st of
        (Some err, d', st') \<Rightarrow> (Some (CouldntReadTiles (inputFilename inp) err), st')
      | (None, d', st') \<Rightarrow> copy_inputs P rest st')"

datatype merge_exit = Fatal fatal | Panicked string | Done

text \<open>
  \<open>main\<close>, from the flags on: the name of the output, whether a file of that name exists,
  what that file holds once the writer opens it, and the sources. \<open>sql.Open\<close> does not touch
  the file and does not fail for a registered driver, so opening a reader or the writer is no
  step of the model. The result is how the run ends and what the output file holds then;
  \<open>log.Fatalf\<close> ends the run at once. The error of the last \<open>Close\<close> is dropped.
\<close>

definition merge_main ::
  "platform \<Rightarrow> string \<Rightarrow> bool \<Rightarrow> database \<Rightarrow> input list \<Rightarrow> merge_exit \<times> database"
where
  "merge_main P outputFilename pathExists file inputs =
     (if outputFilename = [] then (Fatal MustSpecifyOutput, file)
      else if length inputs = 0 then (Fatal MustSpecifyInput, file)
      else if pathExists then (Fatal (OutputExists outputFilename), file)
      else case read_inputs P 0 inputs (\<lparr>bMin = (0, 0), bMax = (0, 0)\<rparr>, 0, 0) of
             Inl f \<Rightarrow> (Fatal f, file)
           | Inr (outputBounds, outputMinZoom, outputMaxZoom) \<Rightarrow>
               (case CreateTiles (NewMbtilesOutputter file 1000 outputBounds
                                    (ucast outputMinZoom) (ucast outputMaxZoom)) of
                  (Some err, o1) \<Rightarrow> (Fatal (CouldntCreateOutput err), db o1)
                | (None, o1) \<Rightarrow>
                    (case copy_inputs P inputs (None, o1) of
                       (f, Some msg, o2) \<Rightarrow> (Panicked msg, db o2)
                     | (Some f, None, o2) \<Rightarrow> (Fatal f, db o2)
                     | (None, None, o2) \<Rightarrow> (Done, db (snd (Close o2))))))"


section \<open>Predicates and inputs of the statements\<close>

text \<open>The answers of the client after which the fetcher waits: a status from 501 to 599.\<close>

definition backs_off :: "error + response \<Rightarrow> bool" where
  "backs_off a =
     (case a of
        Inl err \<Rightarrow> False
      | Inr resp \<Rightarrow> 500 < StatusCode resp \<and> StatusCode resp < 600)"

text \<open>The answers of the client that are a response with a status other than 200.\<close>

definition non200 :: "error + response \<Rightarrow> bool" where
  "non200 a = (case a of Inl err \<Rightarrow> False | Inr resp \<Rightarrow> StatusCode resp \<noteq> 200)"

text \<open>The answers of the client that are server errors: a status from 500 to 599.\<close>

definition server_error :: "error + response \<Rightarrow> bool" where
  "server_error a =
     (case a of
        Inl err \<Rightarrow> False
      | Inr resp \<Rightarrow> 500 \<le> StatusCode resp \<and> StatusCode resp < 600)"

text \<open>A client that answers every call with the same status, and the start of a run.\<close>

definition always :: "int \<Rightarrow> client" where
  "always status = (\<lambda>k. Inr \<lparr>StatusCode = status, Body = []\<rparr>)"

definition net0 :: net where
  "net0 = \<lparr>requests = 0, slept = []\<rparr>"

text \<open>A client that answers 404 once and 200 from then on.\<close>

definition once_404_then_200 :: client where
  "once_404_then_200 =
     (\<lambda>k. if k < 1 then Inr \<lparr>StatusCode = 404, Body = []\<rparr>
          else Inr \<lparr>StatusCode = 200, Body = [1]\<rparr>)"

text \<open>A client that answers 503 three times and 200 from then on.\<close>

definition three_503_then_200 :: client where
  "three_503_then_200 =
     (\<lambda>k. if k < 3 then Inr \<lparr>StatusCode = 503, Body = []\<rparr>
          else Inr \<lparr>StatusCode = 200, Body = [1]\<rparr>)"

text \<open>
  The state machine of the writer, as an invariant: the counter of the batch stays below the
  size of the batch, and a transaction is open exactly while the counter is positive.
  \<open>batchSize\<close> is a Go \<open>int\<close>, so it is below \<open>2 ^ 63\<close>.
\<close>

definition writer_inv :: "mbtilesOutputter \<Rightarrow> bool" where
  "writer_inv o1 =
     (1 \<le> batchSize o1 \<and> batchSize o1 < 2 ^ 63 \<and>
      0 \<le> batchCount o1 \<and> batchCount o1 < batchSize o1 \<and>
      ((txn o1 \<noteq> None) = (0 < batchCount o1)))"

text \<open>
  A platform for the examples: the MD5 digests of the byte strings the examples save (of the
  empty string for any other), zero bounds and their rendering, and \<open>range\<close> taking the
  entries in the order they are written.
\<close>

definition example_platform :: platform where
  "example_platform =
     \<lparr>md5_hex = (\<lambda>data. if data = [1] then ''55a54008ad1ba589aa210d2629c1df41''
                        else if data = [2] then ''9e688c58a5487b8eaf69c9e1005ad0bf''
                        else ''d41d8cd98f00b204e9800998ecf8427e''),
      float_to_uint32 = (\<lambda>z. 0),
      sprintf_f = (\<lambda>f. ''0.000000''),
      center = (\<lambda>b. (0, 0)),
      union = (\<lambda>a b. a),
      range_pick = (\<lambda>entries. 0)\<rparr>"

text \<open>A file that does not exist yet, and the writers on it that the examples use.\<close>

definition new_file :: database where
  "new_file = \<lparr>has_schema = False, map_table = [], images_table = [], metadata_table = [],
               faults = [], commits = 0\<rparr>"

definition zero_bound :: bound where
  "zero_bound = \<lparr>bMin = (0, 0), bMax = (0, 0)\<rparr>"

definition writer0 :: "int \<Rightarrow> mbtilesOutputter" where
  "writer0 bs = NewMbtilesOutputter new_file bs zero_bound 0 0"

text \<open>The names of the rows that \<open>AssignMetadata\<close> inserts.\<close>

definition metadata_names :: "string set" where
  "metadata_names = {''bounds'', ''center'', ''minzoom'', ''maxzoom''}"

text \<open>
  Two archives for the reader: one whose next driver call fails, and one that is empty.
\<close>

definition io_failure :: database where
  "io_failure = \<lparr>has_schema = True, map_table = [], images_table = [], metadata_table = [],
                 faults = [Some ''disk I/O error''], commits = 0\<rparr>"

definition empty_archive :: database where
  "empty_archive = \<lparr>has_schema = True, map_table = [], images_table = [], metadata_table = [],
                    faults = [], commits = 0\<rparr>"

text \<open>
  Sources for the merger: two archives with one tile each, whose metadata report the zoom
  ranges [1, 2] and [3, 4], and one archive with two tiles.
\<close>

definition source_a :: input where
  "source_a =
     \<lparr>inputFilename = ''a.mbtiles'',
      archive = \<lparr>has_schema = True,
                 map_table = [((1, 0, 1), ''55a54008ad1ba589aa210d2629c1df41'')],
                 images_table = [(''55a54008ad1ba589aa210d2629c1df41'', [1])],
                 metadata_table =
                   [(''bounds'', ''0.000000,0.000000,0.000000,0.000000''),
                    (''center'', ''0.000000,0.000000''), (''minzoom'', ''1''),
                    (''maxzoom'', ''2'')],
                 faults = [], commits = 1\<rparr>,
      Metadata = Inr \<lparr>Bounds = Inr zero_bound, MinZoom = Inr 1, MaxZoom = Inr 2\<rparr>\<rparr>"

definition source_b :: input where
  "source_b =
     \<lparr>inputFilename = ''b.mbtiles'',
      archive = \<lparr>has_schema = True,
                 map_table = [((3, 2, 6), ''9e688c58a5487b8eaf69c9e1005ad0bf'')],
                 images_table = [(''9e688c58a5487b8eaf69c9e1005ad0bf'', [2])],
                 metadata_table =
                   [(''bounds'', ''0.000000,0.000000,0.000000,0.000000''),
                    (''center'', ''0.000000,0.000000''), (''minzoom'', ''3''),
                    (''maxzoom'', ''4'')],
                 faults = [], commits = 1\<rparr>,
      Metadata = Inr \<lparr>Bounds = Inr zero_bound, MinZoom = Inr 3, MaxZoom = Inr 4\<rparr>\<rparr>"

definition source_two_tiles :: input where
  "source_two_tiles =
     \<lparr>inputFilename = ''two.mbtiles'',
      archive = \<lparr>has_schema = True,
                 map_table = [((1, 0, 1), ''55a54008ad1ba589aa210d2629c1df41''),
                              ((1, 1, 1), ''9e688c58a5487b8eaf69c9e1005ad0bf'')],
                 images_table = [(''55a54008ad1ba589aa210d2629c1df41'', [1]),
                                 (''9e688c58a5487b8eaf69c9e1005ad0bf'', [2])],
                 metadata_table =
                   [(''bounds'', ''0.000000,0.000000,0.000000,0.000000''),
                    (''center'', ''0.000000,0.000000''), (''minzoom'', ''1''),
                    (''maxzoom'', ''1'')],
                 faults = [], commits = 1\<rparr>,
      Metadata = Inr \<lparr>Bounds = Inr zero_bound, MinZoom = Inr 1, MaxZoom = Inr 1\<rparr>\<rparr>"

text \<open>
  An output file on a disk that fails at the seventh driver call: after the schema, the four
  metadata rows and the start of the transaction, at the insert into \<open>images\<close>.
\<close>

definition failing_disk :: database where
  "failing_disk = new_file\<lparr>faults := [None, None, None, None, None, None, Some ''disk I/O error'']\<rparr>"

section \<open>The retrying fetcher\<close>

lemma filter_upt_Suc_shift:
  "length (filter Q [0..<Suc m]) =
   (if Q 0 then 1 else 0) + length (filter (\<lambda>k. Q (Suc k)) [0..<m])"
proof -
  have "[0..<Suc m] = 0 # map Suc [0..<m]"
    by (simp add: upt_conv_Cons map_Suc_upt del: upt_Suc)
  then show ?thesis
    by (simp add: filter_map o_def del: upt_Suc)
qed

lemma retry_loop_exhausted:
  "n \<le> i \<Longrightarrow> retry_loop client req n i s w = ((None, Some (OutOfRetries (URL req))), w)"
  by (subst retry_loop.simps) simp

lemma retry_loop_nil_error:
  "retry_loop client req n i s w = ((ro, None), w') \<Longrightarrow>
   \<exists>resp. ro = Some resp \<and> StatusCode resp = 200"
proof (induction client req n i s w rule: retry_loop.induct)
  case (1 client req nRetries i sleep w)
  from "1.prems" show ?case
    by (subst (asm) retry_loop.simps) (auto split: if_splits sum.splits dest: "1.IH")
qed

lemma retry_loop_prefix:
  "\<forall>k < m. non200 (client (requests w + k)) \<Longrightarrow> int m \<le> n - i \<Longrightarrow>
   \<exists>s' sl. retry_loop client req n i s w =
             retry_loop client req n (i + int m) s'
               (w\<lparr>requests := requests w + m, slept := slept w @ sl\<rparr>) \<and>
           length sl = length (filter (\<lambda>k. backs_off (client (requests w + k))) [0..<m])"
proof (induction m arbitrary: i s w)
  case 0
  show ?case
    by (rule exI [of _ s], rule exI [of _ "[]"]) simp
next
  case (Suc m)
  from Suc.prems(2) have lt: "i < n" and le: "int m \<le> n - (i + 1)"
    by simp_all
  from Suc.prems(1) have "non200 (client (requests w + 0))"
    by blast
  then obtain resp where r: "client (requests w) = Inr resp" "StatusCode resp \<noteq> 200"
    by (auto simp: non200_def split: sum.splits)
  define s1 where "s1 = (if 500 < StatusCode resp \<and> StatusCode resp < 600
     then (if s * 2 > 30 then 30 * Second else s * 2) else s)"
  define sl1 where "sl1 = (if 500 < StatusCode resp \<and> StatusCode resp < 600 then [s] else [])"
  define w1 where "w1 = w\<lparr>requests := requests w + 1, slept := slept w @ sl1\<rparr>"
  have step: "retry_loop client req n i s w = retry_loop client req n (i + 1) s1 w1"
    using lt r by (subst retry_loop.simps) (auto simp: s1_def sl1_def w1_def)
  have rest: "\<forall>k < m. non200 (client (requests w1 + k))"
  proof (intro allI impI)
    fix k
    assume "k < m"
    then have "Suc k < Suc m"
      by simp
    with Suc.prems(1) have "non200 (client (requests w + Suc k))"
      by blast
    then show "non200 (client (requests w1 + k))"
      by (simp add: w1_def)
  qed
  from Suc.IH [OF rest le, of s1] obtain s' sl where
    ih: "retry_loop client req n (i + 1) s1 w1 =
           retry_loop client req n (i + 1 + int m) s'
             (w1\<lparr>requests := requests w1 + m, slept := slept w1 @ sl\<rparr>)"
    and len: "length sl = length (filter (\<lambda>k. backs_off (client (requests w1 + k))) [0..<m])"
    by blast
  have w': "w1\<lparr>requests := requests w1 + m, slept := slept w1 @ sl\<rparr> =
            w\<lparr>requests := requests w + Suc m, slept := slept w @ (sl1 @ sl)\<rparr>"
    by (simp add: w1_def)
  have bo: "backs_off (client (requests w)) = (500 < StatusCode resp \<and> StatusCode resp < 600)"
    using r by (simp add: backs_off_def)
  have cnt: "length (sl1 @ sl) =
      length (filter (\<lambda>k. backs_off (client (requests w + k))) [0..<Suc m])"
    using filter_upt_Suc_shift [of "\<lambda>k. backs_off (client (requests w + k))" m] len bo
    by (simp add: sl1_def w1_def)
  have idx: "i + 1 + int m = i + int (Suc m)"
    by simp
  have "retry_loop client req n i s w =
        retry_loop client req n (i + 1 + int m) s'
          (w1\<lparr>requests := requests w1 + m, slept := slept w1 @ sl\<rparr>)"
    by (simp only: step ih)
  then have "retry_loop client req n i s w =
        retry_loop client req n (i + int (Suc m)) s'
          (w\<lparr>requests := requests w + Suc m, slept := slept w @ (sl1 @ sl)\<rparr>)"
    by (simp only: w' idx)
  with cnt show ?case
    by blast
qed

text \<open>
  C3, as the claim states it: a request whose first response is 404 is not attempted again.
  The code makes all 30 attempts on a client that always answers 404, without a wait.
\<close>

theorem C3_retry_404_counterexample:
  "requests (snd (doHTTPWithRetry (always 404) \<lparr>URL = ''u''\<rparr> 30 net0)) = 30 \<and>
   requests (snd (doHTTPWithRetry (always 404) \<lparr>URL = ''u''\<rparr> 30 net0)) \<noteq> 1 \<and>
   slept (snd (doHTTPWithRetry (always 404) \<lparr>URL = ''u''\<rparr> 30 net0)) = []"
  by (simp add: doHTTPWithRetry_def always_def net0_def retry_loop.simps)

lemma filter_length_mono:
  "(\<And>x. Q x \<Longrightarrow> R x) \<Longrightarrow> length (filter Q xs) \<le> length (filter R xs)"
  by (induction xs) auto

text \<open>
  C3, amended: every response with a status other than 200 is followed by another attempt
  while fewer than \<open>nRetries\<close> attempts were made, whatever the status. With \<open>m\<close> the number
  of such responses the client gives before its first other answer, or \<open>nRetries\<close> if there
  are that many: the fetcher makes \<open>m + 1\<close> requests and returns that other answer, the
  transport error or the response with status 200; or it makes \<open>nRetries\<close> requests and
  returns the out-of-retries error. The status only decides the waits: one after each of
  the \<open>m\<close> responses with a status from 501 to 599, none after a response with a status
  below 500 or above 599.
\<close>

theorem C3_retry_every_non200:
  assumes pre: "\<forall>k < m. non200 (client (requests w + k))"
    and m: "m \<le> nat nRetries"
    and stop: "m < nat nRetries \<longrightarrow> \<not> non200 (client (requests w + m))"
  shows "requests (snd (doHTTPWithRetry client req nRetries w)) =
           requests w + (if m < nat nRetries then m + 1 else m) \<and>
         fst (doHTTPWithRetry client req nRetries w) =
           (if m < nat nRetries
            then (case client (requests w + m) of
                    Inl err \<Rightarrow> (None, Some err)
                  | Inr resp \<Rightarrow> (Some resp, None))
            else (None, Some (OutOfRetries (URL req)))) \<and>
         length (slept w) +
           length (filter (\<lambda>k. backs_off (client (requests w + k))) [0..<m]) \<le>
           length (slept (snd (doHTTPWithRetry client req nRetries w))) \<and>
         length (slept (snd (doHTTPWithRetry client req nRetries w))) \<le>
           length (slept w) +
           length (filter (\<lambda>k. server_error (client (requests w + k))) [0..<m])"
proof -
  let ?R = "doHTTPWithRetry client req nRetries w"
  have mono: "length (filter (\<lambda>k. backs_off (client (requests w + k))) [0..<m]) \<le>
        length (filter (\<lambda>k. server_error (client (requests w + k))) [0..<m])"
    by (rule filter_length_mono) (auto simp: backs_off_def server_error_def split: sum.splits)
  have main: "requests (snd ?R) = requests w + (if m < nat nRetries then m + 1 else m) \<and>
         fst ?R =
           (if m < nat nRetries
            then (case client (requests w + m) of
                    Inl err \<Rightarrow> (None, Some err)
                  | Inr resp \<Rightarrow> (Some resp, None))
            else (None, Some (OutOfRetries (URL req)))) \<and>
         length (slept (snd ?R)) =
           length (slept w) +
           length (filter (\<lambda>k. backs_off (client (requests w + k))) [0..<m])"
  proof (cases "nRetries \<le> 0")
    case True
    with m have "m = 0"
      by simp
    with True show ?thesis
      by (simp add: doHTTPWithRetry_def retry_loop_exhausted)
  next
    case False
    with m have le: "int m \<le> nRetries - 0"
      by simp
    from retry_loop_prefix [OF pre le, of req "500 * Millisecond"]
    obtain s' sl where
      run: "?R = retry_loop client req nRetries (int m) s'
                   (w\<lparr>requests := requests w + m, slept := slept w @ sl\<rparr>)" and
      len: "length sl = length (filter (\<lambda>k. backs_off (client (requests w + k))) [0..<m])"
      by (auto simp: doHTTPWithRetry_def)
    show ?thesis
    proof (cases "m < nat nRetries")
      case True
      then have lt: "int m < nRetries"
        by simp
      from stop True have ns: "\<not> non200 (client (requests w + m))"
        by simp
      show ?thesis
      proof (cases "client (requests w + m)")
        case (Inl err)
        with lt have "?R = ((None, Some err),
            w\<lparr>requests := requests w + m + 1, slept := slept w @ sl\<rparr>)"
          unfolding run by (subst retry_loop.simps) simp
        with True Inl len show ?thesis
          by simp
      next
        case (Inr resp)
        with ns have "StatusCode resp = 200"
          by (simp add: non200_def)
        with lt Inr have "?R = ((Some resp, None),
            w\<lparr>requests := requests w + m + 1, slept := slept w @ sl\<rparr>)"
          unfolding run by (subst retry_loop.simps) simp
        with True Inr len show ?thesis
          by simp
      qed
    next
      case False
      with m have "nRetries \<le> int m"
        by simp
      then have "?R = ((None, Some (OutOfRetries (URL req))),
            w\<lparr>requests := requests w + m, slept := slept w @ sl\<rparr>)"
        unfolding run by (rule retry_loop_exhausted)
      with False len show ?thesis
        by simp
    qed
  qed
  with mono show ?thesis
    by simp
qed

theorem C3_retry_every_non200_witness:
  "doHTTPWithRetry once_404_then_200 \<lparr>URL = ''u''\<rparr> 30 net0 =
     ((Some \<lparr>StatusCode = 200, Body = [1]\<rparr>, None), \<lparr>requests = 2, slept = []\<rparr>) \<and>
   requests (snd (doHTTPWithRetry three_503_then_200 \<lparr>URL = ''u''\<rparr> 30 net0)) = 4 \<and>
   length (slept (snd (doHTTPWithRetry three_503_then_200 \<lparr>URL = ''u''\<rparr> 30 net0))) = 3 \<and>
   doHTTPWithRetry (always 404) \<lparr>URL = ''u''\<rparr> 3 net0 =
     ((None, Some (OutOfRetries ''u'')), \<lparr>requests = 3, slept = []\<rparr>)"
proof -
  have a1: "\<forall>k < 1. non200 (once_404_then_200 (requests net0 + k))"
    and a2: "(1::nat) \<le> nat 30"
    and a3: "(1::nat) < nat 30 \<longrightarrow> \<not> non200 (once_404_then_200 (requests net0 + 1))"
    by (simp_all add: non200_def once_404_then_200_def net0_def)
  have b1: "\<forall>k < 3. non200 (three_503_then_200 (requests net0 + k))"
    and b2: "(3::nat) \<le> nat 30"
    and b3: "(3::nat) < nat 30 \<longrightarrow> \<not> non200 (three_503_then_200 (requests net0 + 3))"
    by (simp_all add: non200_def three_503_then_200_def net0_def)
  have c1: "\<forall>k < 3. non200 (always 404 (requests net0 + k))"
    and c2: "(3::nat) \<le> nat 3"
    and c3: "(3::nat) < nat 3 \<longrightarrow> \<not> non200 (always 404 (requests net0 + 3))"
    by (simp_all add: non200_def always_def net0_def)
  have f3: "[0..<3] = [0, 1, 2]"
    by (simp add: upt_rec)
  note A = C3_retry_every_non200 [OF a1 a2 a3, of "\<lparr>URL = ''u''\<rparr>"]
  note B = C3_retry_every_non200 [OF b1 b2 b3, of "\<lparr>URL = ''u''\<rparr>"]
  note C = C3_retry_every_non200 [OF c1 c2 c3, of "\<lparr>URL = ''u''\<rparr>"]
  have A': "doHTTPWithRetry once_404_then_200 \<lparr>URL = ''u''\<rparr> 30 net0 =
     ((Some \<lparr>StatusCode = 200, Body = [1]\<rparr>, None), \<lparr>requests = 2, slept = []\<rparr>)"
    using A
    by (cases "doHTTPWithRetry once_404_then_200 \<lparr>URL = ''u''\<rparr> 30 net0";
        cases "snd (doHTTPWithRetry once_404_then_200 \<lparr>URL = ''u''\<rparr> 30 net0)")
       (simp add: once_404_then_200_def net0_def server_error_def backs_off_def)
  have B': "requests (snd (doHTTPWithRetry three_503_then_200 \<lparr>URL = ''u''\<rparr> 30 net0)) = 4 \<and>
   length (slept (snd (doHTTPWithRetry three_503_then_200 \<lparr>URL = ''u''\<rparr> 30 net0))) = 3"
    using B by (simp add: three_503_then_200_def net0_def server_error_def backs_off_def f3)
  have C': "doHTTPWithRetry (always 404) \<lparr>URL = ''u''\<rparr> 3 net0 =
     ((None, Some (OutOfRetries ''u'')), \<lparr>requests = 3, slept = []\<rparr>)"
    using C
    by (cases "doHTTPWithRetry (always 404) \<lparr>URL = ''u''\<rparr> 3 net0";
        cases "snd (doHTTPWithRetry (always 404) \<lparr>URL = ''u''\<rparr> 3 net0)")
       (simp add: always_def net0_def server_error_def backs_off_def f3)
  from A' B' C' show ?thesis
    by simp
qed

text \<open>
  C4, at a client that answers 503 three times and then 200: the code waits 500ms, then 30s,
  then 30s, where the claim has 500ms, 1s, 2s. The doubled wait is compared with \<open>30.0\<close>,
  which is 30 nanoseconds, so the cap applies from the first doubling on.
\<close>

theorem C4_backoff_waits_503:
  "doHTTPWithRetry three_503_then_200 \<lparr>URL = ''u''\<rparr> 30 net0 =
     ((Some \<lparr>StatusCode = 200, Body = [1]\<rparr>, None),
      \<lparr>requests = 4, slept = [500 * Millisecond, 30 * Second, 30 * Second]\<rparr>) \<and>
   slept (snd (doHTTPWithRetry three_503_then_200 \<lparr>URL = ''u''\<rparr> 30 net0)) \<noteq>
     [500 * Millisecond, 1 * Second, 2 * Second]"
  by (simp add: doHTTPWithRetry_def three_503_then_200_def net0_def retry_loop.simps
      Millisecond_def Second_def)

text \<open>
  C9: when \<open>doHTTPWithRetry\<close> returns a nil error, it returns a response, and the status of
  that response is 200; with \<open>nRetries \<le> 0\<close> it returns the out-of-retries error and has made
  no request and no wait.
\<close>

theorem C9_nil_error_status_200:
  "(snd (fst (doHTTPWithRetry client req nRetries w)) = None \<longrightarrow>
      (\<exists>resp. fst (fst (doHTTPWithRetry client req nRetries w)) = Some resp \<and>
              StatusCode resp = 200)) \<and>
   (nRetries \<le> 0 \<longrightarrow>
      doHTTPWithRetry client req nRetries w = ((None, Some (OutOfRetries (URL req))), w))"
proof (intro conjI impI)
  assume nil: "snd (fst (doHTTPWithRetry client req nRetries w)) = None"
  obtain ro eo w' where r: "doHTTPWithRetry client req nRetries w = ((ro, eo), w')"
    by (metis surj_pair)
  with nil have "eo = None"
    by simp
  with r have "retry_loop client req nRetries 0 (500 * Millisecond) w = ((ro, None), w')"
    by (simp add: doHTTPWithRetry_def)
  from retry_loop_nil_error [OF this] r
  show "\<exists>resp. fst (fst (doHTTPWithRetry client req nRetries w)) = Some resp \<and>
               StatusCode resp = 200"
    by simp
next
  assume "nRetries \<le> 0"
  then show "doHTTPWithRetry client req nRetries w = ((None, Some (OutOfRetries (URL req))), w)"
    by (simp add: doHTTPWithRetry_def retry_loop_exhausted)
qed

theorem C9_nil_error_status_200_witness:
  "snd (fst (doHTTPWithRetry three_503_then_200 \<lparr>URL = ''u''\<rparr> 30 net0)) = None \<and>
   (\<exists>resp. fst (fst (doHTTPWithRetry three_503_then_200 \<lparr>URL = ''u''\<rparr> 30 net0)) = Some resp \<and>
           StatusCode resp = 200) \<and>
   (0::int) \<le> 0 \<and>
   doHTTPWithRetry (always 200) \<lparr>URL = ''u''\<rparr> 0 net0 = ((None, Some (OutOfRetries ''u'')), net0)"
proof -
  have nil: "snd (fst (doHTTPWithRetry three_503_then_200 \<lparr>URL = ''u''\<rparr> 30 net0)) = None"
    by (simp add: doHTTPWithRetry_def three_503_then_200_def net0_def retry_loop.simps)
  from C9_nil_error_status_200 [of three_503_then_200 "\<lparr>URL = ''u''\<rparr>" 30 net0] nil
  have a: "\<exists>resp. fst (fst (doHTTPWithRetry three_503_then_200 \<lparr>URL = ''u''\<rparr> 30 net0)) = Some resp \<and>
                  StatusCode resp = 200"
    by blast
  from C9_nil_error_status_200 [of "always 200" "\<lparr>URL = ''u''\<rparr>" 0 net0]
  have b: "doHTTPWithRetry (always 200) \<lparr>URL = ''u''\<rparr> 0 net0 =
             ((None, Some (OutOfRetries ''u'')), net0)"
    by simp
  from nil a b show ?thesis
    by simp
qed

section \<open>The writer\<close>

lemma driver_call_no_faults: "faults d = [] \<Longrightarrow> driver_call d = (None, d)"
  by (simp add: driver_call_def)

lemma range_metadata_fresh:
  "faults d = [] \<Longrightarrow> has_schema d \<Longrightarrow> distinct (map fst entries) \<Longrightarrow>
   fst ` set entries \<inter> fst ` set (metadata_table d) = {} \<Longrightarrow>
   \<exists>md. range_metadata P False entries d = (None, d\<lparr>metadata_table := metadata_table d @ md\<rparr>) \<and>
        set md = set entries"
proof (induction "length entries" arbitrary: entries d)
  case 0
  then show ?case
    by (subst range_metadata.simps) (auto intro: exI [of _ "[]"])
next
  case (Suc n)
  define i where "i = range_pick P entries mod length entries"
  define rest where "rest = take i entries @ drop (Suc i) entries"
  define d' where "d' = d\<lparr>metadata_table := metadata_table d @ [entries ! i]\<rparr>"
  from Suc.hyps(2) have ne: "entries \<noteq> []"
    by auto
  then have i: "i < length entries"
    by (simp add: i_def)
  have ent: "entries = take i entries @ entries ! i # drop (Suc i) entries"
    using i by (simp add: id_take_nth_drop)
  have len: "n = length rest"
    using Suc.hyps(2) i by (simp add: rest_def)
  have mem: "entries ! i \<in> set entries"
    using i by simp
  then have fresh: "fst (entries ! i) \<notin> fst ` set (metadata_table d)"
    using Suc.prems(4) by auto
  have ins: "exec_insert_metadata False (fst (entries ! i)) (snd (entries ! i)) d = (None, d')"
    using Suc.prems(1,2) fresh by (simp add: exec_insert_metadata_def driver_call_no_faults d'_def)
  have setr: "set entries = insert (entries ! i) (set rest)"
    by (subst ent) (auto simp: rest_def)
  have "distinct (map fst (take i entries @ entries ! i # drop (Suc i) entries))"
    using Suc.prems(3) ent by simp
  then have dist: "distinct (map fst rest)" and notin: "fst (entries ! i) \<notin> fst ` set rest"
    by (auto simp: rest_def)
  have disj: "fst ` set rest \<inter> fst ` set (metadata_table d') = {}"
    using Suc.prems(4) notin setr by (auto simp: d'_def)
  from Suc.hyps(1) [OF len _ _ dist disj]
  obtain md where md: "range_metadata P False rest d' = (None, d'\<lparr>metadata_table := metadata_table d' @ md\<rparr>)"
    "set md = set rest"
    using Suc.prems(1,2) by (auto simp: d'_def)
  have "range_metadata P False entries d = range_metadata P False rest d'"
    using ne ins by (subst range_metadata.simps) (simp add: i_def [symmetric] rest_def)
  with md show ?case
    by (intro exI [of _ "entries ! i # md"]) (simp add: d'_def setr)
qed

lemma sint_ucast_32_64: "sint (ucast (w :: 32 word) :: 64 word) = uint w"
proof -
  have "sint (ucast w :: 64 word) = signed_take_bit 63 (uint w)"
    by (simp add: signed_ucast_eq)
  also have "\<dots> = uint w"
  proof (rule signed_take_bit_int_eq_self)
    show "- (2 ^ 63) \<le> uint w"
      by (rule order_trans [OF _ uint_nonnegative]) simp
    have "uint w < 2 ^ 32"
      using uint_bounded [of w] by simp
    then show "uint w < 2 ^ 63"
      by simp
  qed
  finally show ?thesis .
qed

lemma uint_pow2_32: "n < 32 \<Longrightarrow> uint ((2::32 word) ^ n) = 2 ^ n"
proof -
  assume n: "n < 32"
  have "(2::int) ^ n \<le> 2 ^ 31"
    using n by (intro power_increasing) simp_all
  then have le: "(2::int) ^ n < 2 ^ 32" by simp
  have "uint ((2::32 word) ^ n) = uint (word_of_int (2 ^ n) :: 32 word)"
    by simp
  also have "\<dots> = 2 ^ n mod 2 ^ 32"
    by (simp only: uint_word_of_int) simp
  also have "\<dots> = 2 ^ n"
    using le by simp
  finally show ?thesis .
qed

lemma uint_inverted:
  fixes y :: "32 word"
  assumes n: "n < 32" and y: "uint y < 2 ^ n"
  shows "uint (2 ^ n - 1 - y) = 2 ^ n - 1 - uint y"
proof -
  have p: "uint ((2::32 word) ^ n) = 2 ^ n"
    using n by (rule uint_pow2_32)
  have "(2::int) ^ n \<le> 2 ^ 31"
    using n by (intro power_increasing) simp_all
  then have le: "(2::int) ^ n < 2 ^ 32" by simp
  have pos: "(0::int) < 2 ^ n" by simp
  have "uint ((2::32 word) ^ n - 1 - y) = (uint ((2::32 word) ^ n) - 1 - uint y) mod 2 ^ 32"
    by (simp add: uint_word_ariths mod_diff_left_eq)
  also have "\<dots> = (2 ^ n - 1 - uint y) mod 2 ^ 32"
    by (simp only: p)
  also have "\<dots> = 2 ^ n - 1 - uint y"
  proof (rule mod_pos_pos_trivial)
    show "0 \<le> 2 ^ n - 1 - uint y"
      using y by simp
    have "0 \<le> uint y"
      by (rule uint_nonnegative)
    with le show "2 ^ n - 1 - uint y < 2 ^ 32"
      by linarith
  qed
  finally show ?thesis .
qed

lemma smod_reaches:
  "0 \<le> c \<Longrightarrow> c < (b::int) \<Longrightarrow> ((c + 1) smod b = 0) = (c + 1 = b)"
proof -
  assume a: "0 \<le> c" "c < b"
  then have "(c + 1) smod b = (c + 1) mod b"
    by (simp add: smod_int_alt_def)
  also have "\<dots> = (if c + 1 = b then 0 else c + 1)"
    using a by simp
  finally show ?thesis
    using a by simp
qed

lemma go_int_id: "- (2 ^ 63) \<le> n \<Longrightarrow> n < 2 ^ 63 \<Longrightarrow> go_int n = n"
  by (simp add: go_int_def)

lemma driver_call_eq_commits: "driver_call d = (r, d') \<Longrightarrow> commits d' = commits d"
  by (auto simp: driver_call_def split: list.splits)

lemma CreateTiles_fields:
  "CreateTiles o0 = (r, o1) \<Longrightarrow>
   txn o1 = txn o0 \<and> batchCount o1 = batchCount o0 \<and> batchSize o1 = batchSize o0 \<and>
   commits (db o1) = commits (db o0)"
  by (auto simp: CreateTiles_def exec_create_schema_def split: if_splits prod.splits option.splits
      dest: driver_call_eq_commits)

lemma exec_insert_metadata_commits:
  "exec_insert_metadata locked name val d = (r, d') \<Longrightarrow> commits d' = commits d"
  by (auto simp: exec_insert_metadata_def split: if_splits prod.splits option.splits
      dest: driver_call_eq_commits)

lemma range_metadata_commits:
  "range_metadata P locked entries d = (r, d') \<Longrightarrow> commits d' = commits d"
proof (induction P locked entries d rule: range_metadata.induct)
  case (1 P locked entries d)
  show ?case
  proof (cases "entries = []")
    case True
    with "1.prems" show ?thesis
      by (subst (asm) range_metadata.simps) simp
  next
    case False
    define i where "i = range_pick P entries mod length entries"
    obtain r1 d1 where ins: "exec_insert_metadata locked (fst (entries ! i)) (snd (entries ! i)) d = (r1, d1)"
      by (cases "exec_insert_metadata locked (fst (entries ! i)) (snd (entries ! i)) d")
    note c1 = exec_insert_metadata_commits [OF ins]
    show ?thesis
    proof (cases r1)
      case (Some err)
      with "1.prems" False ins c1 show ?thesis
        by (subst (asm) range_metadata.simps) (simp add: i_def [symmetric])
    next
      case None
      with "1.prems" False ins
      have "range_metadata P locked (take i entries @ drop (Suc i) entries) d1 = (r, d')"
        by (subst (asm) range_metadata.simps) (simp add: i_def [symmetric])
      have "commits d' = commits d1"
      proof (rule "1.IH" [OF False _ None])
        show "(r1, d1) = exec_insert_metadata locked
                (fst (entries ! (range_pick P entries mod length entries)))
                (snd (entries ! (range_pick P entries mod length entries))) d"
          using ins by (simp add: i_def)
        show "range_metadata P locked (take (range_pick P entries mod length entries) entries @
                drop (Suc (range_pick P entries mod length entries)) entries) d1 = (r, d')"
          using \<open>range_metadata P locked (take i entries @ drop (Suc i) entries) d1 = (r, d')\<close>
          by (simp add: i_def)
      qed
      with c1 show ?thesis
        by simp
    qed
  qed
qed

lemma AssignMetadata_fields:
  "AssignMetadata P b zmin zmax o1 = (r, o2) \<Longrightarrow>
   txn o2 = txn o1 \<and> batchCount o2 = batchCount o1 \<and> batchSize o2 = batchSize o1 \<and>
   commits (db o2) = commits (db o1)"
  by (auto simp: AssignMetadata_def Let_def split: prod.splits dest: range_metadata_commits)

lemma db_begin_D:
  "db_begin d = (Inr t, d') \<Longrightarrow> t = \<lparr>pending = [], finished = False\<rparr> \<and> commits d' = commits d"
  by (auto simp: db_begin_def split: prod.splits option.splits dest: driver_call_eq_commits)

lemma tx_exec_D:
  "tx_exec st t d = (None, t', d') \<Longrightarrow>
   \<not> finished t \<and> t' = t\<lparr>pending := pending t @ [st]\<rparr> \<and> commits d' = commits d \<and>
   driver_call d = (None, d') \<and> has_schema d' \<and> \<not> binds_null st"
  by (auto simp: tx_exec_def split: if_splits prod.splits option.splits dest: driver_call_eq_commits)

lemma apply_stmt_commits: "commits (apply_stmt st d) = commits d"
  by (cases "(st, d)" rule: apply_stmt.cases) simp_all

lemma fold_apply_stmt_commits: "commits (fold apply_stmt sts d) = commits d"
  by (induction sts arbitrary: d) (simp_all add: apply_stmt_commits)

lemma tx_commit_D:
  "tx_commit t d = (None, t', d') \<Longrightarrow>
   \<not> finished t \<and> commits d' = commits d + 1 \<and>
   (\<exists>d1. driver_call d = (None, d1) \<and> d' = (fold apply_stmt (pending t) d1)\<lparr>commits := commits d1 + 1\<rparr>)"
  by (auto simp: tx_commit_def fold_apply_stmt_commits split: if_splits prod.splits option.splits
      dest: driver_call_eq_commits)

lemma Save_nil_D:
  assumes nil: "fst (Save P tile data o0) = Returns None"
  shows "\<exists>o1 o2 t3 d3 t4 d4 t5 d5.
     CreateTiles o0 = (None, o1) \<and>
     AssignMetadata P (bounds o1) (minZoom o1) (maxZoom o1) o1 = (None, o2) \<and>
     (case txn o2 of Some t \<Rightarrow> (Inr t, db o2) | None \<Rightarrow> db_begin (db o2)) = (Inr t3, d3) \<and>
     tx_exec (ReplaceImage (md5_hex P (slice_bytes data)) data) t3 d3 = (None, t4, d4) \<and>
     tx_exec (ReplaceMap (uint (mZ tile)) (uint (mX tile))
                (uint (pow2_uint32 P (mZ tile) - 1 - mY tile)) (md5_hex P (slice_bytes data))) t4 d4 =
       (None, t5, d5) \<and>
     batchSize o2 \<noteq> 0 \<and>
     (if go_int (batchCount o2 + 1) smod batchSize o2 = 0
      then \<exists>t6 d6. tx_commit t5 d5 = (None, t6, d6) \<and>
             snd (Save P tile data o0) = o2\<lparr>db := d6, txn := None, batchCount := 0\<rparr>
      else snd (Save P tile data o0) =
             o2\<lparr>db := d5, txn := Some t5, batchCount := go_int (batchCount o2 + 1)\<rparr>)"
proof -
  obtain r1 o1 where c1: "CreateTiles o0 = (r1, o1)"
    by (cases "CreateTiles o0")
  have r1: "r1 = None"
    using nil c1 by (cases r1) (simp_all add: Save_def)
  obtain r2 o2 where c2: "AssignMetadata P (bounds o1) (minZoom o1) (maxZoom o1) o1 = (r2, o2)"
    by (cases "AssignMetadata P (bounds o1) (minZoom o1) (maxZoom o1) o1")
  have r2: "r2 = None"
    using nil c1 r1 c2 by (cases r2) (simp_all add: Save_def)
  obtain r3 d3
    where c3: "(case txn o2 of Some t \<Rightarrow> (Inr t, db o2) | None \<Rightarrow> db_begin (db o2)) = (r3, d3)"
    by (cases "case txn o2 of Some t \<Rightarrow> (Inr t, db o2) | None \<Rightarrow> db_begin (db o2)")
  obtain t3 where r3: "r3 = Inr t3"
    using nil c1 r1 c2 r2 c3 by (cases r3) (simp_all add: Save_def)
  obtain r4 t4 d4 where c4: "tx_exec (ReplaceImage (md5_hex P (slice_bytes data)) data) t3 d3 = (r4, t4, d4)"
    by (cases "tx_exec (ReplaceImage (md5_hex P (slice_bytes data)) data) t3 d3")
  have r4: "r4 = None"
    using nil c1 r1 c2 r2 c3 r3 c4 by (cases r4) (simp_all add: Save_def Let_def)
  obtain r5 t5 d5
    where c5: "tx_exec (ReplaceMap (uint (mZ tile)) (uint (mX tile))
                (uint (pow2_uint32 P (mZ tile) - 1 - mY tile)) (md5_hex P (slice_bytes data))) t4 d4 = (r5, t5, d5)"
    by (cases "tx_exec (ReplaceMap (uint (mZ tile)) (uint (mX tile))
                (uint (pow2_uint32 P (mZ tile) - 1 - mY tile)) (md5_hex P (slice_bytes data))) t4 d4")
  have r5: "r5 = None"
    using nil c1 r1 c2 r2 c3 r3 c4 r4 c5 by (cases r5) (simp_all add: Save_def Let_def)
  note steps = c1 [unfolded r1] c2 [unfolded r2] c3 [unfolded r3] c4 [unfolded r4] c5 [unfolded r5]
  have bs: "batchSize o2 \<noteq> 0"
    using nil steps by (auto simp: Save_def Let_def)
  have fin: "if go_int (batchCount o2 + 1) smod batchSize o2 = 0
      then \<exists>t6 d6. tx_commit t5 d5 = (None, t6, d6) \<and>
             snd (Save P tile data o0) = o2\<lparr>db := d6, txn := None, batchCount := 0\<rparr>
      else snd (Save P tile data o0) =
             o2\<lparr>db := d5, txn := Some t5, batchCount := go_int (batchCount o2 + 1)\<rparr>"
  proof (cases "go_int (batchCount o2 + 1) smod batchSize o2 = 0")
    case False
    then show ?thesis
      using steps bs by (simp add: Save_def Let_def)
  next
    case True
    obtain r6 t6 d6 where c6: "tx_commit t5 d5 = (r6, t6, d6)"
      by (cases "tx_commit t5 d5")
    have "r6 = None"
      using nil steps bs True c6 by (cases r6) (simp_all add: Save_def Let_def)
    with c6 True steps bs show ?thesis
      by (simp add: Save_def Let_def)
  qed
  from steps bs fin show ?thesis
    by blast
qed

lemma Save_step:
  assumes inv: "writer_inv o0" and nil: "fst (Save P tile data o0) = Returns None"
  shows "writer_inv (snd (Save P tile data o0)) \<and>
     (if batchCount o0 + 1 = batchSize o0
      then commits (db (snd (Save P tile data o0))) = commits (db o0) + 1 \<and>
           txn (snd (Save P tile data o0)) = None \<and>
           batchCount (snd (Save P tile data o0)) = 0
      else commits (db (snd (Save P tile data o0))) = commits (db o0) \<and>
           txn (snd (Save P tile data o0)) \<noteq> None \<and>
           batchCount (snd (Save P tile data o0)) = batchCount o0 + 1)"
proof -
  from Save_nil_D [OF nil] obtain o1 o2 t3 d3 t4 d4 t5 d5 where
    c1: "CreateTiles o0 = (None, o1)" and
    c2: "AssignMetadata P (bounds o1) (minZoom o1) (maxZoom o1) o1 = (None, o2)" and
    c3: "(case txn o2 of Some t \<Rightarrow> (Inr t, db o2) | None \<Rightarrow> db_begin (db o2)) = (Inr t3, d3)" and
    c4: "tx_exec (ReplaceImage (md5_hex P (slice_bytes data)) data) t3 d3 = (None, t4, d4)" and
    c5: "tx_exec (ReplaceMap (uint (mZ tile)) (uint (mX tile))
                (uint (pow2_uint32 P (mZ tile) - 1 - mY tile)) (md5_hex P (slice_bytes data))) t4 d4 =
       (None, t5, d5)" and
    fin: "if go_int (batchCount o2 + 1) smod batchSize o2 = 0
      then \<exists>t6 d6. tx_commit t5 d5 = (None, t6, d6) \<and>
             snd (Save P tile data o0) = o2\<lparr>db := d6, txn := None, batchCount := 0\<rparr>
      else snd (Save P tile data o0) =
             o2\<lparr>db := d5, txn := Some t5, batchCount := go_int (batchCount o2 + 1)\<rparr>"
    by blast
  from CreateTiles_fields [OF c1] AssignMetadata_fields [OF c2]
  have f2: "txn o2 = txn o0" "batchCount o2 = batchCount o0" "batchSize o2 = batchSize o0"
    "commits (db o2) = commits (db o0)"
    by simp_all
  have cm3: "commits d3 = commits (db o0)"
    using c3 f2(4) by (auto split: option.splits dest: db_begin_D)
  have cm5: "commits d5 = commits (db o0)"
    using tx_exec_D [OF c4] tx_exec_D [OF c5] cm3 by simp
  from inv have b: "1 \<le> batchSize o0" "batchSize o0 < 2 ^ 63" "0 \<le> batchCount o0"
    "batchCount o0 < batchSize o0" "(txn o0 \<noteq> None) = (0 < batchCount o0)"
    by (simp_all add: writer_inv_def)
  have n: "go_int (batchCount o2 + 1) = batchCount o0 + 1"
    using b f2(2) by (simp add: go_int_id)
  have reach: "(go_int (batchCount o2 + 1) smod batchSize o2 = 0) = (batchCount o0 + 1 = batchSize o0)"
    unfolding n f2(3) using b by (rule_tac smod_reaches) simp_all
  show ?thesis
  proof (cases "batchCount o0 + 1 = batchSize o0")
    case True
    with fin reach obtain t6 d6 where
      c6: "tx_commit t5 d5 = (None, t6, d6)" and
      s: "snd (Save P tile data o0) = o2\<lparr>db := d6, txn := None, batchCount := 0\<rparr>"
      by auto
    from tx_commit_D [OF c6] cm5 have "commits d6 = commits (db o0) + 1"
      by simp
    with True s b f2 show ?thesis
      by (simp add: writer_inv_def)
  next
    case False
    with fin reach n
    have s: "snd (Save P tile data o0) = o2\<lparr>db := d5, txn := Some t5, batchCount := batchCount o0 + 1\<rparr>"
      by simp
    with False cm5 b f2 show ?thesis
      by (simp add: writer_inv_def)
  qed
qed

lemma save_all_inv:
  "save_all P calls o0 = Some o' \<Longrightarrow> writer_inv o0 \<Longrightarrow> writer_inv o'"
proof (induction calls arbitrary: o0)
  case Nil
  then show ?case by simp
next
  case (Cons c calls)
  obtain tile data where c: "c = (tile, data)"
    by (cases c)
  obtain r o1 where s: "Save P tile data o0 = (r, o1)"
    by (cases "Save P tile data o0")
  from Cons.prems(1) c s have r: "r = Returns None" and rest: "save_all P calls o1 = Some o'"
    by (auto split: outcome.splits option.splits)
  from Save_step [OF Cons.prems(2), of P tile data] s r have "writer_inv o1"
    by simp
  from Cons.IH [OF rest this] show ?case .
qed

lemma NewMbtilesOutputter_inv:
  "1 \<le> bs \<Longrightarrow> bs < 2 ^ 63 \<Longrightarrow> writer_inv (NewMbtilesOutputter file bs b zmin zmax)"
  by (simp add: writer_inv_def NewMbtilesOutputter_def)

text \<open>
  C10: for a writer with \<open>batchSize \<ge> 1\<close>, after any run of calls of \<open>Save\<close> that all returned
  nil from the initial state, \<open>0 \<le> batchCount < batchSize\<close> holds and a transaction is open
  exactly when \<open>batchCount > 0\<close>. A call that returns nil keeps the invariant, and commits
  exactly when the incremented counter reaches \<open>batchSize\<close>; both are then reset.
\<close>

theorem C10_writer_invariant:
  "(1 \<le> bs \<and> bs < 2 ^ 63 \<and>
    save_all P calls (NewMbtilesOutputter file bs b zmin zmax) = Some o' \<longrightarrow>
      0 \<le> batchCount o' \<and> batchCount o' < batchSize o' \<and>
      ((txn o' \<noteq> None) = (0 < batchCount o'))) \<and>
   (writer_inv o0 \<and> fst (Save P tile data o0) = Returns None \<longrightarrow>
      writer_inv (snd (Save P tile data o0)) \<and>
      (if batchCount o0 + 1 = batchSize o0
       then commits (db (snd (Save P tile data o0))) = commits (db o0) + 1 \<and>
            txn (snd (Save P tile data o0)) = None \<and>
            batchCount (snd (Save P tile data o0)) = 0
       else commits (db (snd (Save P tile data o0))) = commits (db o0) \<and>
            txn (snd (Save P tile data o0)) \<noteq> None \<and>
            batchCount (snd (Save P tile data o0)) = batchCount o0 + 1))"
proof (intro conjI impI)
  assume a: "1 \<le> bs \<and> bs < 2 ^ 63 \<and>
    save_all P calls (NewMbtilesOutputter file bs b zmin zmax) = Some o'"
  then have "writer_inv (NewMbtilesOutputter file bs b zmin zmax)"
    by (simp add: NewMbtilesOutputter_inv)
  with a have "writer_inv o'"
    by (blast intro: save_all_inv)
  then show "0 \<le> batchCount o'" "batchCount o' < batchSize o'"
    "(txn o' \<noteq> None) = (0 < batchCount o')"
    by (simp_all add: writer_inv_def)
next
  assume a: "writer_inv o0 \<and> fst (Save P tile data o0) = Returns None"
  with Save_step [of o0 P tile data]
  show "writer_inv (snd (Save P tile data o0))"
    "if batchCount o0 + 1 = batchSize o0
       then commits (db (snd (Save P tile data o0))) = commits (db o0) + 1 \<and>
            txn (snd (Save P tile data o0)) = None \<and>
            batchCount (snd (Save P tile data o0)) = 0
       else commits (db (snd (Save P tile data o0))) = commits (db o0) \<and>
            txn (snd (Save P tile data o0)) \<noteq> None \<and>
            batchCount (snd (Save P tile data o0)) = batchCount o0 + 1"
    by blast+
qed

theorem C10_writer_invariant_witness:
  "(1::int) \<le> 2 \<and> (2::int) < 2 ^ 63 \<and>
   (\<exists>o'. save_all example_platform [(\<lparr>mX = 0, mY = 0, mZ = 0\<rparr>, Some [1])]
            (NewMbtilesOutputter new_file 2 zero_bound 0 0) = Some o' \<and>
         0 \<le> batchCount o' \<and> batchCount o' < batchSize o' \<and>
         ((txn o' \<noteq> None) = (0 < batchCount o'))) \<and>
   writer_inv (writer0 1) \<and>
   fst (Save example_platform \<lparr>mX = 0, mY = 0, mZ = 0\<rparr> (Some [1]) (writer0 1)) = Returns None \<and>
   writer_inv (snd (Save example_platform \<lparr>mX = 0, mY = 0, mZ = 0\<rparr> (Some [1]) (writer0 1))) \<and>
   commits (db (snd (Save example_platform \<lparr>mX = 0, mY = 0, mZ = 0\<rparr> (Some [1]) (writer0 1)))) = 1 \<and>
   txn (snd (Save example_platform \<lparr>mX = 0, mY = 0, mZ = 0\<rparr> (Some [1]) (writer0 1))) = None \<and>
   batchCount (snd (Save example_platform \<lparr>mX = 0, mY = 0, mZ = 0\<rparr> (Some [1]) (writer0 1))) = 0"
proof -
  have run: "save_all example_platform [(\<lparr>mX = 0, mY = 0, mZ = 0\<rparr>, Some [1])]
               (NewMbtilesOutputter new_file 2 zero_bound 0 0) \<noteq> None"
    by code_simp
  then obtain o' where o': "save_all example_platform [(\<lparr>mX = 0, mY = 0, mZ = 0\<rparr>, Some [1])]
               (NewMbtilesOutputter new_file 2 zero_bound 0 0) = Some o'"
    by blast
  have inv: "writer_inv (writer0 1)"
    by (simp add: writer_inv_def writer0_def NewMbtilesOutputter_def)
  have nil: "fst (Save example_platform \<lparr>mX = 0, mY = 0, mZ = 0\<rparr> (Some [1]) (writer0 1)) = Returns None"
    by code_simp
  have bc: "batchCount (writer0 1) + 1 = batchSize (writer0 1)" "commits (db (writer0 1)) = 0"
    by (simp_all add: writer0_def NewMbtilesOutputter_def new_file_def)
  from C10_writer_invariant [of 2 example_platform "[(\<lparr>mX = 0, mY = 0, mZ = 0\<rparr>, Some [1])]"
      new_file zero_bound 0 0 o' "writer0 1" "\<lparr>mX = 0, mY = 0, mZ = 0\<rparr>" "Some [1]"]
    o' inv nil bc
  show ?thesis
    by simp
qed

lemma fold_apply_stmt_snoc_map:
  "map_table (fold apply_stmt (sts @ [ReplaceMap z x y tileID]) d) =
   filter (\<lambda>r. fst r \<noteq> (z, x, y)) (map_table (fold apply_stmt sts d)) @ [((z, x, y), tileID)]"
  by simp

lemma Save_nil_stores:
  assumes nil: "fst (Save P tile data o0) = Returns None"
  shows "case txn (snd (Save P tile data o0)) of
      Some t \<Rightarrow>
        pending t \<noteq> [] \<and>
        last (pending t) =
          ReplaceMap (uint (mZ tile)) (uint (mX tile))
            (uint (pow2_uint32 P (mZ tile) - 1 - mY tile)) (md5_hex P (slice_bytes data))
    | None \<Rightarrow>
        map_table (db (snd (Save P tile data o0))) \<noteq> [] \<and>
        last (map_table (db (snd (Save P tile data o0)))) =
          ((uint (mZ tile), uint (mX tile), uint (pow2_uint32 P (mZ tile) - 1 - mY tile)),
           md5_hex P (slice_bytes data))"
proof -
  let ?st = "ReplaceMap (uint (mZ tile)) (uint (mX tile))
                (uint (pow2_uint32 P (mZ tile) - 1 - mY tile)) (md5_hex P (slice_bytes data))"
  from Save_nil_D [OF nil] obtain o2 t4 d4 t5 d5 where
    c5: "tx_exec ?st t4 d4 = (None, t5, d5)" and
    fin: "if go_int (batchCount o2 + 1) smod batchSize o2 = 0
      then \<exists>t6 d6. tx_commit t5 d5 = (None, t6, d6) \<and>
             snd (Save P tile data o0) = o2\<lparr>db := d6, txn := None, batchCount := 0\<rparr>
      else snd (Save P tile data o0) =
             o2\<lparr>db := d5, txn := Some t5, batchCount := go_int (batchCount o2 + 1)\<rparr>"
    by blast
  from tx_exec_D [OF c5] have t5: "pending t5 = pending t4 @ [?st]"
    by simp
  show ?thesis
  proof (cases "go_int (batchCount o2 + 1) smod batchSize o2 = 0")
    case False
    with fin t5 show ?thesis
      by simp
  next
    case True
    with fin obtain t6 d6 where
      c6: "tx_commit t5 d5 = (None, t6, d6)" and
      s: "snd (Save P tile data o0) = o2\<lparr>db := d6, txn := None, batchCount := 0\<rparr>"
      by auto
    from tx_commit_D [OF c6] obtain d1 where
      "d6 = (fold apply_stmt (pending t5) d1)\<lparr>commits := commits d1 + 1\<rparr>"
      by blast
    then have "map_table d6 = map_table (fold apply_stmt (pending t4 @ [?st]) d1)"
      by (simp add: t5)
    then have "map_table d6 =
       filter (\<lambda>r. fst r \<noteq> (uint (mZ tile), uint (mX tile),
                                uint (pow2_uint32 P (mZ tile) - 1 - mY tile)))
         (map_table (fold apply_stmt (pending t4) d1)) @
       [((uint (mZ tile), uint (mX tile), uint (pow2_uint32 P (mZ tile) - 1 - mY tile)),
         md5_hex P (slice_bytes data))]"
      by (simp only: fold_apply_stmt_snoc_map)
    with s show ?thesis
      by simp
  qed
qed

text \<open>
  C6, amended: \<open>Save\<close> has no setting for the row convention. Every call that returns nil
  hands the map table the row \<open>uint32(2^Z) - 1 - Y\<close>, computed in \<open>uint32\<close>: it is the last
  statement of the open transaction, or the last row of the table when the call committed.
  For a tile with \<open>Z < 32\<close> and \<open>Y < 2^Z\<close> that row is the integer \<open>2^Z - 1 - Y\<close>.
\<close>

theorem C6_save_always_inverts:
  "fst (Save P tile data o0) = Returns None \<Longrightarrow>
   (case txn (snd (Save P tile data o0)) of
      Some t \<Rightarrow>
        pending t \<noteq> [] \<and>
        last (pending t) =
          ReplaceMap (uint (mZ tile)) (uint (mX tile))
            (uint (pow2_uint32 P (mZ tile) - 1 - mY tile)) (md5_hex P (slice_bytes data))
    | None \<Rightarrow>
        map_table (db (snd (Save P tile data o0))) \<noteq> [] \<and>
        last (map_table (db (snd (Save P tile data o0)))) =
          ((uint (mZ tile), uint (mX tile), uint (pow2_uint32 P (mZ tile) - 1 - mY tile)),
           md5_hex P (slice_bytes data))) \<and>
   (unat (mZ tile) < 32 \<and> uint (mY tile) < 2 ^ unat (mZ tile) \<longrightarrow>
      uint (pow2_uint32 P (mZ tile) - 1 - mY tile) = 2 ^ unat (mZ tile) - 1 - uint (mY tile))"
proof (intro conjI impI)
  assume "fst (Save P tile data o0) = Returns None"
  then show "case txn (snd (Save P tile data o0)) of
      Some t \<Rightarrow>
        pending t \<noteq> [] \<and>
        last (pending t) =
          ReplaceMap (uint (mZ tile)) (uint (mX tile))
            (uint (pow2_uint32 P (mZ tile) - 1 - mY tile)) (md5_hex P (slice_bytes data))
    | None \<Rightarrow>
        map_table (db (snd (Save P tile data o0))) \<noteq> [] \<and>
        last (map_table (db (snd (Save P tile data o0)))) =
          ((uint (mZ tile), uint (mX tile), uint (pow2_uint32 P (mZ tile) - 1 - mY tile)),
           md5_hex P (slice_bytes data))"
    by (rule Save_nil_stores)
next
  assume "unat (mZ tile) < 32 \<and> uint (mY tile) < 2 ^ unat (mZ tile)"
  then show "uint (pow2_uint32 P (mZ tile) - 1 - mY tile) =
             2 ^ unat (mZ tile) - 1 - uint (mY tile)"
    by (simp add: pow2_uint32_def uint_inverted)
qed

text \<open>
  C6, as the claim states it: by default the row stored for tile (Z, X, Y) is Y unchanged.
  The writer made by \<open>NewMbtilesOutputter\<close>, which has no field for the convention, stores
  row 1 for the tile (1, 0, 0).
\<close>

theorem C6_row_unchanged_counterexample:
  "map_table (db (snd (Close (snd (Save example_platform \<lparr>mX = 0, mY = 0, mZ = 1\<rparr> (Some [1])
                                      (writer0 1000)))))) =
     [((1, 0, 1), ''55a54008ad1ba589aa210d2629c1df41'')] \<and>
   map_table (db (snd (Close (snd (Save example_platform \<lparr>mX = 0, mY = 0, mZ = 1\<rparr> (Some [1])
                                      (writer0 1000)))))) \<noteq>
     [((1, 0, 0), ''55a54008ad1ba589aa210d2629c1df41'')]"
  by code_simp

theorem C6_save_always_inverts_witness:
  "fst (Save example_platform \<lparr>mX = 2, mY = 1, mZ = 3\<rparr> (Some [2]) (writer0 1)) = Returns None \<and>
   txn (snd (Save example_platform \<lparr>mX = 2, mY = 1, mZ = 3\<rparr> (Some [2]) (writer0 1))) = None \<and>
   last (map_table (db (snd (Save example_platform \<lparr>mX = 2, mY = 1, mZ = 3\<rparr> (Some [2]) (writer0 1))))) =
     ((3, 2, 6), ''9e688c58a5487b8eaf69c9e1005ad0bf'') \<and>
   unat (3 :: 32 word) < 32 \<and> uint (1 :: 32 word) < 2 ^ unat (3 :: 32 word) \<and>
   uint (pow2_uint32 example_platform 3 - 1 - 1) = 2 ^ unat (3 :: 32 word) - 1 - uint (1 :: 32 word)"
proof -
  have nil: "fst (Save example_platform \<lparr>mX = 2, mY = 1, mZ = 3\<rparr> (Some [2]) (writer0 1)) = Returns None"
    by code_simp
  have tx: "txn (snd (Save example_platform \<lparr>mX = 2, mY = 1, mZ = 3\<rparr> (Some [2]) (writer0 1))) = None"
    by code_simp
  have v: "unat (3 :: 32 word) < 32 \<and> uint (1 :: 32 word) < 2 ^ unat (3 :: 32 word)"
    by simp
  have six: "uint (pow2_uint32 example_platform 3 - 1 - 1) = 6"
    by (simp add: pow2_uint32_def)
  have id: "md5_hex example_platform (slice_bytes (Some [2])) =
      ''9e688c58a5487b8eaf69c9e1005ad0bf''"
    by (simp add: example_platform_def slice_bytes_def)
  from C6_save_always_inverts [OF nil] nil tx v six id
  show ?thesis
    by simp
qed

lemma join_filter:
  "filter (\<lambda>r. fst r = c) (concat (map (\<lambda>m. map (\<lambda>i. (fst m, snd i)) (f m)) ms)) =
   concat (map (\<lambda>m. map (\<lambda>i. (fst m, snd i)) (f m)) (filter (\<lambda>m. fst m = c) ms))"
proof (induction ms)
  case Nil
  show ?case by simp
next
  case (Cons m ms)
  have "filter (\<lambda>r. fst r = c) (map (\<lambda>i. (fst m, snd i)) (f m)) =
        (if fst m = c then map (\<lambda>i. (fst m, snd i)) (f m) else [])"
    by (simp add: filter_map o_def)
  with Cons show ?case
    by simp
qed

lemma tiles_view_at:
  "filter (\<lambda>r. fst r = c) (tiles_view d) =
   concat (map (\<lambda>m. map (\<lambda>i. (fst m, snd i)) (filter (\<lambda>i. fst i = snd m) (images_table d)))
               (filter (\<lambda>m. fst m = c) (map_table d)))"
  unfolding tiles_view_def by (rule join_filter)

lemma tiles_view_replaced:
  assumes m: "map_table d = filter (\<lambda>r. fst r \<noteq> c) ms @ [(c, tileID)]"
    and i: "images_table d = filter (\<lambda>r. fst r \<noteq> tileID) imgs @ [(tileID, data)]"
  shows "filter (\<lambda>r. fst r = c) (tiles_view d) = [(c, data)]"
proof -
  have "filter (\<lambda>m. fst m = c) (map_table d) = [(c, tileID)]"
    unfolding m by (simp add: filter_empty_conv)
  moreover have "filter (\<lambda>i. fst i = tileID) (images_table d) = [(tileID, data)]"
    unfolding i by (simp add: filter_empty_conv)
  ultimately show ?thesis
    by (simp add: tiles_view_at)
qed

lemma Save_first:
  assumes ff: "faults file = []"
    and fresh: "has_schema file \<longrightarrow> metadata_names \<inter> fst ` set (metadata_table file) = {}"
    and bs: "bs \<noteq> 0"
  shows "\<exists>o2 d6.
     faults (db o2) = [] \<and> has_schema (db o2) \<and> txn o2 = None \<and>
     d6 = (fold apply_stmt
             [ReplaceImage (md5_hex P data) (Some data),
              ReplaceMap (uint (mZ tile)) (uint (mX tile))
                (uint (pow2_uint32 P (mZ tile) - 1 - mY tile)) (md5_hex P data)] (db o2))
          \<lparr>commits := commits (db o2) + 1\<rparr> \<and>
     Save P tile (Some data) (NewMbtilesOutputter file bs b zmin zmax) =
       (if 1 smod bs = 0
        then (Returns None, o2\<lparr>db := d6, txn := None, batchCount := 0\<rparr>)
        else (Returns None,
              o2\<lparr>db := db o2,
                 txn := Some \<lparr>pending =
                   [ReplaceImage (md5_hex P data) (Some data),
                    ReplaceMap (uint (mZ tile)) (uint (mX tile))
                      (uint (pow2_uint32 P (mZ tile) - 1 - mY tile)) (md5_hex P data)],
                   finished = False\<rparr>,
                 batchCount := 1\<rparr>))"
proof -
  let ?o0 = "NewMbtilesOutputter file bs b zmin zmax"
  let ?img = "ReplaceImage (md5_hex P data) (Some data)"
  let ?map = "ReplaceMap (uint (mZ tile)) (uint (mX tile))
                (uint (pow2_uint32 P (mZ tile) - 1 - mY tile)) (md5_hex P data)"
  define d1 where "d1 = (if has_schema file then file
     else file\<lparr>has_schema := True, map_table := [], images_table := [], metadata_table := []\<rparr>)"
  define o1 where "o1 = ?o0\<lparr>db := d1, hasTiles := True\<rparr>"
  have c1: "CreateTiles ?o0 = (None, o1)"
    using ff by (simp add: CreateTiles_def NewMbtilesOutputter_def exec_create_schema_def
        driver_call_no_faults d1_def o1_def)
  have d1: "faults d1 = []" "has_schema d1"
    "metadata_names \<inter> fst ` set (metadata_table d1) = {}"
    using ff fresh by (simp_all add: d1_def)
  define entries where "entries =
    [(''bounds'', sprintf_f P (fst (bMin b)) @ '','' @ sprintf_f P (snd (bMin b)) @ '','' @
                  sprintf_f P (fst (bMax b)) @ '','' @ sprintf_f P (snd (bMax b))),
     (''center'', sprintf_f P (fst (center P b)) @ '','' @ sprintf_f P (snd (center P b))),
     (''minzoom'', Itoa (uint zmin)), (''maxzoom'', Itoa (uint zmax))]"
  have dist: "distinct (map fst entries)"
    by (simp add: entries_def)
  have disj: "fst ` set entries \<inter> fst ` set (metadata_table d1) = {}"
    using d1(3) by (simp add: entries_def metadata_names_def)
  from range_metadata_fresh [OF d1(1) d1(2) dist disj, of P]
  obtain md where md: "range_metadata P False entries d1 =
      (None, d1\<lparr>metadata_table := metadata_table d1 @ md\<rparr>)"
    by blast
  define d2 where "d2 = d1\<lparr>metadata_table := metadata_table d1 @ md\<rparr>"
  define o2 where "o2 = o1\<lparr>db := d2\<rparr>"
  have bo: "bounds o1 = b" "minZoom o1 = zmin" "maxZoom o1 = zmax" "db o1 = d1"
    "write_locked (txn o1) = False"
    by (simp_all add: o1_def NewMbtilesOutputter_def write_locked_def)
  have c2: "AssignMetadata P (bounds o1) (minZoom o1) (maxZoom o1) o1 = (None, o2)"
    unfolding bo AssignMetadata_def Let_def entries_def [symmetric]
    by (simp add: md o2_def d2_def)
  have d2: "faults d2 = []" "has_schema d2"
    using d1 by (simp_all add: d2_def)
  have o2: "txn o2 = None" "db o2 = d2" "batchCount o2 = 0" "batchSize o2 = bs"
    by (simp_all add: o2_def o1_def NewMbtilesOutputter_def)
  have c3: "db_begin d2 = (Inr \<lparr>pending = [], finished = False\<rparr>, d2)"
    using d2 by (simp add: db_begin_def driver_call_no_faults)
  have c4: "tx_exec ?img \<lparr>pending = [], finished = False\<rparr> d2 =
      (None, \<lparr>pending = [?img], finished = False\<rparr>, d2)"
    using d2 by (simp add: tx_exec_def driver_call_no_faults)
  have c5: "tx_exec ?map \<lparr>pending = [?img], finished = False\<rparr> d2 =
      (None, \<lparr>pending = [?img, ?map], finished = False\<rparr>, d2)"
    using d2 by (simp add: tx_exec_def driver_call_no_faults)
  have c6: "tx_commit \<lparr>pending = [?img, ?map], finished = False\<rparr> d2 =
      (None, \<lparr>pending = [?img, ?map], finished = True\<rparr>,
       (fold apply_stmt [?img, ?map] d2)\<lparr>commits := commits d2 + 1\<rparr>)"
    using d2 by (simp add: tx_commit_def driver_call_no_faults)
  have n: "go_int 1 = 1"
    by (simp add: go_int_def)
  have "Save P tile (Some data) ?o0 =
       (if 1 smod bs = 0
        then (Returns None, o2\<lparr>db := (fold apply_stmt [?img, ?map] d2)\<lparr>commits := commits d2 + 1\<rparr>,
                               txn := None, batchCount := 0\<rparr>)
        else (Returns None,
              o2\<lparr>db := d2, txn := Some \<lparr>pending = [?img, ?map], finished = False\<rparr>,
                 batchCount := 1\<rparr>))"
    unfolding Save_def c1 by (simp add: c2 o2 c3 c4 c5 c6 n Let_def bs slice_bytes_def)
  with d2 o2 show ?thesis
    by (intro exI [of _ o2] exI [of _ "(fold apply_stmt [?img, ?map] d2)\<lparr>commits := commits d2 + 1\<rparr>"])
       (simp)
qed

text \<open>
  C2, amended: on a file whose driver calls go through and that holds none of the four
  metadata rows yet, the first \<open>Save(tile, bytes)\<close> of a writer with \<open>batchSize \<noteq> 0\<close>, for
  \<open>bytes\<close> that are not the nil slice, returns nil, \<open>Close\<close> returns nil, and a reader over
  the file then gets exactly \<open>bytes\<close> from \<open>GetTile\<close> at the tile with the inverted row,
  (Z, X, \<open>uint32(2^Z) - 1 - Y\<close>).
\<close>

theorem C2_round_trip_at_inverted_row:
  assumes ff: "faults file = []"
    and fresh: "has_schema file \<longrightarrow> metadata_names \<inter> fst ` set (metadata_table file) = {}"
    and bs: "bs \<noteq> 0"
  shows "fst (Save P tile (Some data) (NewMbtilesOutputter file bs b zmin zmax)) = Returns None \<and>
     fst (Close (snd (Save P tile (Some data) (NewMbtilesOutputter file bs b zmin zmax)))) = None \<and>
     fst (GetTile (db (snd (Close (snd (Save P tile (Some data)
                                          (NewMbtilesOutputter file bs b zmin zmax))))))
            \<lparr>Z = ucast (mZ tile), X = ucast (mX tile),
             Y = ucast (pow2_uint32 P (mZ tile) - 1 - mY tile)\<rparr>) =
       (Some \<lparr>Tile = \<lparr>Z = ucast (mZ tile), X = ucast (mX tile),
                      Y = ucast (pow2_uint32 P (mZ tile) - 1 - mY tile)\<rparr>,
              Data = Some data\<rparr>, None)"
proof -
  let ?img = "ReplaceImage (md5_hex P data) (Some data)"
  let ?c = "(uint (mZ tile), uint (mX tile), uint (pow2_uint32 P (mZ tile) - 1 - mY tile))"
  let ?map = "ReplaceMap (uint (mZ tile)) (uint (mX tile))
                (uint (pow2_uint32 P (mZ tile) - 1 - mY tile)) (md5_hex P data)"
  let ?S = "Save P tile (Some data) (NewMbtilesOutputter file bs b zmin zmax)"
  from Save_first [OF ff fresh bs, of P data tile b zmin zmax]
  obtain o2 d6 where
    o2: "faults (db o2) = []" "has_schema (db o2)" "txn o2 = None" and
    d6: "d6 = (fold apply_stmt [?img, ?map] (db o2))\<lparr>commits := commits (db o2) + 1\<rparr>" and
    S: "?S = (if 1 smod bs = 0
        then (Returns None, o2\<lparr>db := d6, txn := None, batchCount := 0\<rparr>)
        else (Returns None,
              o2\<lparr>db := db o2, txn := Some \<lparr>pending = [?img, ?map], finished = False\<rparr>,
                 batchCount := 1\<rparr>))"
    by blast
  have d6f: "faults d6 = []" "has_schema d6"
    "map_table d6 = filter (\<lambda>r. fst r \<noteq> ?c) (map_table (db o2)) @ [(?c, md5_hex P data)]"
    "images_table d6 =
       filter (\<lambda>r. fst r \<noteq> md5_hex P data) (images_table (db o2)) @ [(md5_hex P data, data)]"
    using o2 by (simp_all add: d6)
  have nil: "fst ?S = Returns None"
    by (simp add: S)
  have cl: "fst (Close (snd ?S)) = None \<and> db (snd (Close (snd ?S))) = d6"
  proof (cases "1 smod bs = 0")
    case True
    then have "snd ?S = o2\<lparr>db := d6, txn := None, batchCount := 0\<rparr>"
      by (simp add: S)
    then show ?thesis
      using d6f(1) by (simp add: Close_def db_close_def driver_call_no_faults)
  next
    case False
    then have s: "snd ?S = o2\<lparr>db := db o2,
        txn := Some \<lparr>pending = [?img, ?map], finished = False\<rparr>, batchCount := 1\<rparr>"
      by (simp add: S)
    have "tx_commit \<lparr>pending = [?img, ?map], finished = False\<rparr> (db o2) =
      (None, \<lparr>pending = [?img, ?map], finished = True\<rparr>, d6)"
      using o2 by (simp add: tx_commit_def driver_call_no_faults d6)
    then show ?thesis
      unfolding s using d6f(1) by (simp add: Close_def db_close_def driver_call_no_faults)
  qed
  then have cl1: "fst (Close (snd ?S)) = None" and cl2: "db (snd (Close (snd ?S))) = d6"
    by simp_all
  have rows: "filter (\<lambda>r. fst r = ?c) (tiles_view d6) = [(?c, data)]"
    using d6f(3,4) by (rule tiles_view_replaced)
  have "query_tile_data d6 ?c = (Inr data, d6)"
    using d6f(1,2) rows by (simp add: query_tile_data_def driver_call_no_faults)
  then have "fst (GetTile d6 \<lparr>Z = ucast (mZ tile), X = ucast (mX tile),
             Y = ucast (pow2_uint32 P (mZ tile) - 1 - mY tile)\<rparr>) =
       (Some \<lparr>Tile = \<lparr>Z = ucast (mZ tile), X = ucast (mX tile),
                      Y = ucast (pow2_uint32 P (mZ tile) - 1 - mY tile)\<rparr>,
              Data = Some data\<rparr>, None)"
    by (simp add: GetTile_def sint_ucast_32_64)
  with nil cl1 cl2 show ?thesis
    by simp
qed

text \<open>
  C2, as the claim states it: after \<open>Save(tile, bytes)\<close> and \<open>Close\<close>, \<open>GetTile(tile)\<close> returns
  \<open>bytes\<close>. For the tile (1, 0, 0) and the bytes \<open>[1]\<close> on a new file, \<open>Save\<close> and \<open>Close\<close>
  return nil and \<open>GetTile\<close> at (1, 0, 0) finds no content: the row was stored as 1.
\<close>

theorem C2_round_trip_counterexample:
  "fst (Save example_platform \<lparr>mX = 0, mY = 0, mZ = 1\<rparr> (Some [1]) (writer0 1000)) = Returns None \<and>
   fst (Close (snd (Save example_platform \<lparr>mX = 0, mY = 0, mZ = 1\<rparr> (Some [1]) (writer0 1000)))) = None \<and>
   fst (GetTile (db (snd (Close (snd (Save example_platform \<lparr>mX = 0, mY = 0, mZ = 1\<rparr> (Some [1])
                                         (writer0 1000))))))
          \<lparr>Z = 1, X = 0, Y = 0\<rparr>) =
     (Some \<lparr>Tile = \<lparr>Z = 1, X = 0, Y = 0\<rparr>, Data = None\<rparr>, None)"
  by code_simp

theorem C2_round_trip_at_inverted_row_witness:
  "faults new_file = [] \<and> \<not> has_schema new_file \<and> (1000::int) \<noteq> 0 \<and>
   fst (Save example_platform \<lparr>mX = 0, mY = 0, mZ = 1\<rparr> (Some [1])
          (NewMbtilesOutputter new_file 1000 zero_bound 0 0)) = Returns None \<and>
   fst (Close (snd (Save example_platform \<lparr>mX = 0, mY = 0, mZ = 1\<rparr> (Some [1])
                      (NewMbtilesOutputter new_file 1000 zero_bound 0 0)))) = None \<and>
   fst (GetTile (db (snd (Close (snd (Save example_platform \<lparr>mX = 0, mY = 0, mZ = 1\<rparr> (Some [1])
                                         (NewMbtilesOutputter new_file 1000 zero_bound 0 0))))))
          \<lparr>Z = 1, X = 0, Y = 1\<rparr>) =
     (Some \<lparr>Tile = \<lparr>Z = 1, X = 0, Y = 1\<rparr>, Data = Some [1]\<rparr>, None)"
proof -
  have h1: "faults new_file = []" and h2: "\<not> has_schema new_file"
    by (simp_all add: new_file_def)
  from h2 have h3: "has_schema new_file \<longrightarrow>
      metadata_names \<inter> fst ` set (metadata_table new_file) = {}"
    by simp
  have h4: "(1000::int) \<noteq> 0"
    by simp
  have y: "pow2_uint32 example_platform 1 - 1 - 0 = 1"
    by (simp add: pow2_uint32_def)
  from C2_round_trip_at_inverted_row [OF h1 h3 h4, of example_platform
      "\<lparr>mX = 0, mY = 0, mZ = 1\<rparr>" "[1]" zero_bound 0 0] h1 h2 y
  show ?thesis
    by simp
qed

lemma driver_call_tables:
  "driver_call d = (r, d') \<Longrightarrow>
   has_schema d' = has_schema d \<and> map_table d' = map_table d \<and>
   images_table d' = images_table d \<and> metadata_table d' = metadata_table d"
  by (auto simp: driver_call_def split: list.splits)

lemma exec_insert_metadata_nil:
  "exec_insert_metadata locked name val d = (None, d') \<Longrightarrow>
   has_schema d' \<and> name \<notin> fst ` set (metadata_table d) \<and>
   metadata_table d' = metadata_table d @ [(name, val)]"
proof -
  assume a: "exec_insert_metadata locked name val d = (None, d')"
  obtain r d1 where dc: "driver_call d = (r, d1)"
    by (cases "driver_call d")
  note t = driver_call_tables [OF dc]
  from a dc have r: "r = None"
    by (cases r) (simp_all add: exec_insert_metadata_def)
  from a dc r have s: "has_schema d1" and n: "name \<notin> fst ` set (metadata_table d1)"
    and d': "d' = d1\<lparr>metadata_table := metadata_table d1 @ [(name, val)]\<rparr>"
    by (simp_all add: exec_insert_metadata_def split: if_splits)
  from s n d' t show ?thesis
    by simp
qed

lemma exec_insert_metadata_present:
  "name \<in> fst ` set (metadata_table d) \<Longrightarrow>
   \<exists>err d'. exec_insert_metadata locked name val d = (Some err, d') \<and>
     map_table d' = map_table d \<and> images_table d' = images_table d \<and>
     commits d' = commits d"
proof -
  assume a: "name \<in> fst ` set (metadata_table d)"
  obtain r d1 where dc: "driver_call d = (r, d1)"
    by (cases "driver_call d")
  from driver_call_tables [OF dc] driver_call_eq_commits [OF dc] a dc
  show ?thesis
    by (cases r) (auto simp: exec_insert_metadata_def)
qed

lemma range_metadata_nil_names:
  "range_metadata P locked entries d = (None, d') \<Longrightarrow>
   fst ` set entries \<subseteq> fst ` set (metadata_table d') \<and>
   set (metadata_table d) \<subseteq> set (metadata_table d') \<and>
   (entries \<noteq> [] \<longrightarrow> has_schema d')"
proof (induction "length entries" arbitrary: entries d)
  case 0
  then show ?case
    by (subst (asm) range_metadata.simps) simp
next
  case (Suc n)
  define i where "i = range_pick P entries mod length entries"
  define rest where "rest = take i entries @ drop (Suc i) entries"
  from Suc.hyps(2) have ne: "entries \<noteq> []"
    by auto
  then have i: "i < length entries"
    by (simp add: i_def)
  have ent: "entries = take i entries @ entries ! i # drop (Suc i) entries"
    using i by (simp add: id_take_nth_drop)
  have len: "n = length rest"
    using Suc.hyps(2) i by (simp add: rest_def)
  have setr: "set entries = insert (entries ! i) (set rest)"
    by (subst ent) (auto simp: rest_def)
  obtain r1 d1 where ins: "exec_insert_metadata locked (fst (entries ! i)) (snd (entries ! i)) d = (r1, d1)"
    by (cases "exec_insert_metadata locked (fst (entries ! i)) (snd (entries ! i)) d")
  have r1: "r1 = None"
    using Suc.prems ne ins
    by (subst (asm) range_metadata.simps) (cases r1, simp_all add: i_def [symmetric])
  have rec: "range_metadata P locked rest d1 = (None, d')"
    using Suc.prems ne ins r1
    by (subst (asm) range_metadata.simps) (simp add: i_def [symmetric] rest_def)
  note one = exec_insert_metadata_nil [OF ins [unfolded r1]]
  from Suc.hyps(1) [OF len rec]
  have ih: "fst ` set rest \<subseteq> fst ` set (metadata_table d')"
    "set (metadata_table d1) \<subseteq> set (metadata_table d')"
    "rest \<noteq> [] \<longrightarrow> has_schema d'"
    by simp_all
  have sch: "has_schema d'"
  proof (cases "rest = []")
    case True
    with rec have "d' = d1"
      by (subst (asm) range_metadata.simps) simp
    with one show ?thesis
      by simp
  next
    case False
    with ih(3) show ?thesis
      by simp
  qed
  have "entries ! i \<in> set (metadata_table d1)"
    using one by simp
  with ih(2) have "fst (entries ! i) \<in> fst ` set (metadata_table d')"
    by blast
  with ih(1) setr have a: "fst ` set entries \<subseteq> fst ` set (metadata_table d')"
    by auto
  have b: "set (metadata_table d) \<subseteq> set (metadata_table d')"
    using one ih(2) by auto
  from a b sch show ?case
    by simp
qed

lemma range_metadata_present_fails:
  "entries \<noteq> [] \<Longrightarrow> fst ` set entries \<subseteq> fst ` set (metadata_table d) \<Longrightarrow>
   \<exists>name err d'. range_metadata P locked entries d = (Some (MetadataKeyError name err), d') \<and>
     map_table d' = map_table d \<and> images_table d' = images_table d \<and> commits d' = commits d"
proof -
  assume ne: "entries \<noteq> []" and sub: "fst ` set entries \<subseteq> fst ` set (metadata_table d)"
  define i where "i = range_pick P entries mod length entries"
  have "i < length entries"
    using ne by (simp add: i_def)
  then have "fst (entries ! i) \<in> fst ` set (metadata_table d)"
    using sub by auto
  from exec_insert_metadata_present [OF this, of locked "snd (entries ! i)"]
  obtain err d' where "exec_insert_metadata locked (fst (entries ! i)) (snd (entries ! i)) d = (Some err, d')"
    "map_table d' = map_table d" "images_table d' = images_table d" "commits d' = commits d"
    by blast
  then show ?thesis
    using ne by (subst range_metadata.simps) (simp add: i_def [symmetric])
qed

lemma apply_stmt_metadata: "metadata_table (apply_stmt st d) = metadata_table d"
  by (cases "(st, d)" rule: apply_stmt.cases) simp_all

lemma fold_apply_stmt_metadata:
  "metadata_table (fold apply_stmt sts d) = metadata_table d"
  by (induction sts arbitrary: d) (simp_all add: apply_stmt_metadata)

lemma CreateTiles_nil_hasTiles: "CreateTiles o0 = (None, o1) \<Longrightarrow> hasTiles o1"
  by (auto simp: CreateTiles_def split: if_splits prod.splits option.splits)

lemma AssignMetadata_nil_names:
  assumes "AssignMetadata P b zmin zmax o1 = (None, o2)"
  shows "hasTiles o2 = hasTiles o1 \<and> metadata_names \<subseteq> fst ` set (metadata_table (db o2))"
proof -
  define entries where "entries =
    [(''bounds'', sprintf_f P (fst (bMin b)) @ '','' @ sprintf_f P (snd (bMin b)) @ '','' @
                  sprintf_f P (fst (bMax b)) @ '','' @ sprintf_f P (snd (bMax b))),
     (''center'', sprintf_f P (fst (center P b)) @ '','' @ sprintf_f P (snd (center P b))),
     (''minzoom'', Itoa (uint zmin)), (''maxzoom'', Itoa (uint zmax))]"
  obtain r d' where rm: "range_metadata P (write_locked (txn o1)) entries (db o1) = (r, d')"
    by (cases "range_metadata P (write_locked (txn o1)) entries (db o1)")
  from assms have eq: "(r, o1\<lparr>db := d'\<rparr>) = (None, o2)"
    unfolding AssignMetadata_def Let_def entries_def [symmetric] by (simp add: rm)
  then have r: "r = None" and o2: "o2 = o1\<lparr>db := d'\<rparr>"
    by simp_all
  from range_metadata_nil_names [OF rm [unfolded r]]
  have "fst ` set entries \<subseteq> fst ` set (metadata_table d')"
    by simp
  moreover have "fst ` set entries = metadata_names"
    by (auto simp: entries_def metadata_names_def)
  ultimately show ?thesis
    by (simp add: o2)
qed

lemma Save_nil_metadata:
  assumes nil: "fst (Save P tile data o0) = Returns None"
  shows "hasTiles (snd (Save P tile data o0)) \<and>
         metadata_names \<subseteq> fst ` set (metadata_table (db (snd (Save P tile data o0))))"
proof -
  from Save_nil_D [OF nil] obtain o1 o2 t3 d3 t4 d4 t5 d5 where
    c1: "CreateTiles o0 = (None, o1)" and
    c2: "AssignMetadata P (bounds o1) (minZoom o1) (maxZoom o1) o1 = (None, o2)" and
    c3: "(case txn o2 of Some t \<Rightarrow> (Inr t, db o2) | None \<Rightarrow> db_begin (db o2)) = (Inr t3, d3)" and
    c4: "tx_exec (ReplaceImage (md5_hex P (slice_bytes data)) data) t3 d3 = (None, t4, d4)" and
    c5: "tx_exec (ReplaceMap (uint (mZ tile)) (uint (mX tile))
                (uint (pow2_uint32 P (mZ tile) - 1 - mY tile)) (md5_hex P (slice_bytes data))) t4 d4 =
       (None, t5, d5)" and
    fin: "if go_int (batchCount o2 + 1) smod batchSize o2 = 0
      then \<exists>t6 d6. tx_commit t5 d5 = (None, t6, d6) \<and>
             snd (Save P tile data o0) = o2\<lparr>db := d6, txn := None, batchCount := 0\<rparr>
      else snd (Save P tile data o0) =
             o2\<lparr>db := d5, txn := Some t5, batchCount := go_int (batchCount o2 + 1)\<rparr>"
    by blast
  from CreateTiles_nil_hasTiles [OF c1] AssignMetadata_nil_names [OF c2]
  have h: "hasTiles o2" and m2: "metadata_names \<subseteq> fst ` set (metadata_table (db o2))"
    by simp_all
  have m3: "metadata_table d3 = metadata_table (db o2)"
  proof (cases "txn o2")
    case None
    with c3 have "db_begin (db o2) = (Inr t3, d3)"
      by simp
    then show ?thesis
      by (auto simp: db_begin_def split: prod.splits option.splits dest: driver_call_tables)
  next
    case (Some t)
    with c3 show ?thesis
      by simp
  qed
  from tx_exec_D [OF c4] have "driver_call d3 = (None, d4)"
    by simp
  from driver_call_tables [OF this] have m4: "metadata_table d4 = metadata_table d3"
    by simp
  from tx_exec_D [OF c5] have "driver_call d4 = (None, d5)"
    by simp
  from driver_call_tables [OF this] m4 m3
  have m5: "metadata_table d5 = metadata_table (db o2)"
    by simp
  show ?thesis
  proof (cases "go_int (batchCount o2 + 1) smod batchSize o2 = 0")
    case False
    with fin h m2 m5 show ?thesis
      by simp
  next
    case True
    with fin obtain t6 d6 where
      c6: "tx_commit t5 d5 = (None, t6, d6)" and
      s: "snd (Save P tile data o0) = o2\<lparr>db := d6, txn := None, batchCount := 0\<rparr>"
      by auto
    from tx_commit_D [OF c6] obtain d1 where
      dc: "driver_call d5 = (None, d1)" and
      d6: "d6 = (fold apply_stmt (pending t5) d1)\<lparr>commits := commits d1 + 1\<rparr>"
      by blast
    from driver_call_tables [OF dc] d6 m5
    have "metadata_table d6 = metadata_table (db o2)"
      by (simp add: fold_apply_stmt_metadata)
    with s h m2 show ?thesis
      by simp
  qed
qed

lemma Save_metadata_present:
  assumes h: "hasTiles o1"
    and m: "metadata_names \<subseteq> fst ` set (metadata_table (db o1))"
  shows "\<exists>name err d'.
     Save P tile data o1 = (Returns (Some (MetadataKeyError name err)), o1\<lparr>db := d'\<rparr>) \<and>
     map_table d' = map_table (db o1) \<and> images_table d' = images_table (db o1) \<and>
     commits d' = commits (db o1)"
proof -
  define entries where "entries =
    [(''bounds'', sprintf_f P (fst (bMin (bounds o1))) @ '','' @
                  sprintf_f P (snd (bMin (bounds o1))) @ '','' @
                  sprintf_f P (fst (bMax (bounds o1))) @ '','' @
                  sprintf_f P (snd (bMax (bounds o1)))),
     (''center'', sprintf_f P (fst (center P (bounds o1))) @ '','' @
                  sprintf_f P (snd (center P (bounds o1)))),
     (''minzoom'', Itoa (uint (minZoom o1))), (''maxzoom'', Itoa (uint (maxZoom o1)))]"
  have c1: "CreateTiles o1 = (None, o1)"
    using h by (simp add: CreateTiles_def)
  have ne: "entries \<noteq> []"
    by (simp add: entries_def)
  have "fst ` set entries = metadata_names"
    by (auto simp: entries_def metadata_names_def)
  with m have sub: "fst ` set entries \<subseteq> fst ` set (metadata_table (db o1))"
    by simp
  from range_metadata_present_fails [OF ne sub, of P]
  obtain name err d' where
    rm: "range_metadata P (write_locked (txn o1)) entries (db o1) = (Some (MetadataKeyError name err), d')" and
    t: "map_table d' = map_table (db o1)" "images_table d' = images_table (db o1)"
       "commits d' = commits (db o1)"
    by blast
  have c2: "AssignMetadata P (bounds o1) (minZoom o1) (maxZoom o1) o1 =
      (Some (MetadataKeyError name err), o1\<lparr>db := d'\<rparr>)"
    unfolding AssignMetadata_def Let_def entries_def [symmetric] by (simp add: rm)
  have "Save P tile data o1 = (Returns (Some (MetadataKeyError name err)), o1\<lparr>db := d'\<rparr>)"
    unfolding Save_def c1 by (simp add: c2)
  with t show ?thesis
    by blast
qed

text \<open>
  C1, what the code does where the claim has a second successful \<open>Save\<close>: \<open>Save\<close> runs
  \<open>AssignMetadata\<close> on every call, and the second insert of a metadata row fails, on the
  lock of the open transaction or on the unique index of the names. After a \<open>Save\<close> that
  returned nil, every further \<open>Save\<close> on the writer, with
  the same tile and bytes or any other, returns the error of \<open>AssignMetadata\<close> and leaves the
  transaction and the rows of both tables as they were.
\<close>

theorem C1_second_save_fails:
  assumes "fst (Save P tile data o0) = Returns None"
  shows "\<exists>name err.
     fst (Save P tile' data' (snd (Save P tile data o0))) =
       Returns (Some (MetadataKeyError name err)) \<and>
     txn (snd (Save P tile' data' (snd (Save P tile data o0)))) =
       txn (snd (Save P tile data o0)) \<and>
     map_table (db (snd (Save P tile' data' (snd (Save P tile data o0))))) =
       map_table (db (snd (Save P tile data o0))) \<and>
     images_table (db (snd (Save P tile' data' (snd (Save P tile data o0))))) =
       images_table (db (snd (Save P tile data o0)))"
proof -
  from Save_nil_metadata [OF assms]
  have h: "hasTiles (snd (Save P tile data o0))"
    and m: "metadata_names \<subseteq> fst ` set (metadata_table (db (snd (Save P tile data o0))))"
    by simp_all
  from Save_metadata_present [OF h m, of P tile' data']
  obtain name err d' where
    "Save P tile' data' (snd (Save P tile data o0)) =
       (Returns (Some (MetadataKeyError name err)), (snd (Save P tile data o0))\<lparr>db := d'\<rparr>)"
    "map_table d' = map_table (db (snd (Save P tile data o0)))"
    "images_table d' = images_table (db (snd (Save P tile data o0)))"
    by blast
  then show ?thesis
    by simp
qed

theorem C1_second_save_fails_witness:
  "fst (Save example_platform \<lparr>mX = 0, mY = 0, mZ = 0\<rparr> (Some [1]) (writer0 1000)) = Returns None \<and>
   (\<exists>name err.
      fst (Save example_platform \<lparr>mX = 0, mY = 0, mZ = 0\<rparr> (Some [1])
             (snd (Save example_platform \<lparr>mX = 0, mY = 0, mZ = 0\<rparr> (Some [1]) (writer0 1000)))) =
        Returns (Some (MetadataKeyError name err)) \<and>
      txn (snd (Save example_platform \<lparr>mX = 0, mY = 0, mZ = 0\<rparr> (Some [1])
             (snd (Save example_platform \<lparr>mX = 0, mY = 0, mZ = 0\<rparr> (Some [1]) (writer0 1000))))) =
        txn (snd (Save example_platform \<lparr>mX = 0, mY = 0, mZ = 0\<rparr> (Some [1]) (writer0 1000))) \<and>
      map_table (db (snd (Save example_platform \<lparr>mX = 0, mY = 0, mZ = 0\<rparr> (Some [1])
             (snd (Save example_platform \<lparr>mX = 0, mY = 0, mZ = 0\<rparr> (Some [1]) (writer0 1000)))))) =
        map_table (db (snd (Save example_platform \<lparr>mX = 0, mY = 0, mZ = 0\<rparr> (Some [1]) (writer0 1000)))) \<and>
      images_table (db (snd (Save example_platform \<lparr>mX = 0, mY = 0, mZ = 0\<rparr> (Some [1])
             (snd (Save example_platform \<lparr>mX = 0, mY = 0, mZ = 0\<rparr> (Some [1]) (writer0 1000)))))) =
        images_table (db (snd (Save example_platform \<lparr>mX = 0, mY = 0, mZ = 0\<rparr> (Some [1]) (writer0 1000)))))"
proof -
  have nil: "fst (Save example_platform \<lparr>mX = 0, mY = 0, mZ = 0\<rparr> (Some [1]) (writer0 1000)) =
      Returns None"
    by code_simp
  from C1_second_save_fails [OF nil, of "\<lparr>mX = 0, mY = 0, mZ = 0\<rparr>" "Some [1]"] nil
  show ?thesis
    by blast
qed

text \<open>
  The same two calls, evaluated. With a batch of 1000 the transaction of the first call is
  open and holds the write lock, and the insert of \<open>AssignMetadata\<close> fails on the lock; with
  a batch of 1 the first call has committed, and the insert fails on the unique index. In
  both runs the writer is after the second call what it was after the first.
\<close>

lemma second_save_error_example:
  "Save example_platform \<lparr>mX = 0, mY = 0, mZ = 0\<rparr> (Some [1])
          (snd (Save example_platform \<lparr>mX = 0, mY = 0, mZ = 0\<rparr> (Some [1]) (writer0 1000))) =
     (Returns (Some (MetadataKeyError ''bounds'' (DriverError ''database is locked''))),
      snd (Save example_platform \<lparr>mX = 0, mY = 0, mZ = 0\<rparr> (Some [1]) (writer0 1000))) \<and>
   Save example_platform \<lparr>mX = 0, mY = 0, mZ = 0\<rparr> (Some [1])
          (snd (Save example_platform \<lparr>mX = 0, mY = 0, mZ = 0\<rparr> (Some [1]) (writer0 1))) =
     (Returns (Some (MetadataKeyError ''bounds''
                      (DriverError ''UNIQUE constraint failed: metadata.name''))),
      snd (Save example_platform \<lparr>mX = 0, mY = 0, mZ = 0\<rparr> (Some [1]) (writer0 1)))"
  by code_simp

text \<open>
  \<open>Save\<close> of the nil slice: the insert into \<open>images\<close> binds NULL and the column refuses it.
\<close>

lemma save_nil_slice_example:
  "fst (Save example_platform \<lparr>mX = 0, mY = 0, mZ = 0\<rparr> None (writer0 1000)) =
     Returns (Some (DriverError ''NOT NULL constraint failed: images.tile_data''))"
  by code_simp

section \<open>The reader\<close>

lemma tiles_view_absent:
  "c \<notin> fst ` set (map_table d) \<Longrightarrow> filter (\<lambda>r. fst r = c) (tiles_view d) = []"
proof -
  assume "c \<notin> fst ` set (map_table d)"
  then have "filter (\<lambda>m. fst m = c) (map_table d) = []"
    by (auto simp: filter_empty_conv)
  then show ?thesis
    by (simp add: tiles_view_at)
qed

text \<open>
  C8: on an archive, when the driver call goes through and the map table has no row at the
  coordinate of the tile, \<open>GetTile\<close> returns a \<open>TileData\<close> with nil \<open>Data\<close> and a nil error;
  and whenever \<open>GetTile\<close> returns an error, the driver call failed and the error is the
  failure of the driver.
\<close>

theorem C8_absent_tile_is_not_an_error:
  assumes "has_schema d"
  shows "(fst (driver_call d) = None \<and>
          (sint (Z tile), sint (X tile), sint (Y tile)) \<notin> fst ` set (map_table d) \<longrightarrow>
            fst (GetTile d tile) = (Some \<lparr>Tile = tile, Data = None\<rparr>, None)) \<and>
         (\<forall>err. snd (fst (GetTile d tile)) = Some err \<longrightarrow>
            fst (fst (GetTile d tile)) = None \<and>
            (\<exists>msg. fst (driver_call d) = Some msg \<and> err = DriverError msg))"
proof (intro conjI impI allI)
  assume a: "fst (driver_call d) = None \<and>
          (sint (Z tile), sint (X tile), sint (Y tile)) \<notin> fst ` set (map_table d)"
  obtain d' where dc: "driver_call d = (None, d')"
    using a by (cases "driver_call d") simp
  from driver_call_tables [OF dc] assms a
  have "has_schema d'" "(sint (Z tile), sint (X tile), sint (Y tile)) \<notin> fst ` set (map_table d')"
    by simp_all
  then have "query_tile_data d (sint (Z tile), sint (X tile), sint (Y tile)) = (Inl ErrNoRows, d')"
    using dc by (simp add: query_tile_data_def tiles_view_absent)
  then show "fst (GetTile d tile) = (Some \<lparr>Tile = tile, Data = None\<rparr>, None)"
    by (simp add: GetTile_def)
next
  fix err
  assume e: "snd (fst (GetTile d tile)) = Some err"
  obtain r d' where dc: "driver_call d = (r, d')"
    by (cases "driver_call d")
  from driver_call_tables [OF dc] assms have s: "has_schema d'"
    by simp
  show "fst (fst (GetTile d tile)) = None"
    using e dc s
    by (cases r) (auto simp: GetTile_def query_tile_data_def split: list.splits)
  show "\<exists>msg. fst (driver_call d) = Some msg \<and> err = DriverError msg"
    using e dc s
    by (cases r) (auto simp: GetTile_def query_tile_data_def split: list.splits)
qed

theorem C8_absent_tile_is_not_an_error_witness:
  "has_schema empty_archive \<and> fst (driver_call empty_archive) = None \<and>
   (sint (3 :: 64 word), sint (2 :: 64 word), sint (1 :: 64 word)) \<notin>
     fst ` set (map_table empty_archive) \<and>
   fst (GetTile empty_archive \<lparr>Z = 3, X = 2, Y = 1\<rparr>) =
     (Some \<lparr>Tile = \<lparr>Z = 3, X = 2, Y = 1\<rparr>, Data = None\<rparr>, None) \<and>
   has_schema io_failure \<and>
   snd (fst (GetTile io_failure \<lparr>Z = 3, X = 2, Y = 1\<rparr>)) = Some (DriverError ''disk I/O error'') \<and>
   fst (fst (GetTile io_failure \<lparr>Z = 3, X = 2, Y = 1\<rparr>)) = None \<and>
   fst (driver_call io_failure) = Some ''disk I/O error''"
proof -
  have h1: "has_schema empty_archive" and h2: "fst (driver_call empty_archive) = None"
    and h3: "(sint (Z \<lparr>Z = 3, X = 2, Y = 1\<rparr>), sint (X \<lparr>Z = 3, X = 2, Y = 1\<rparr>),
              sint (Y \<lparr>Z = 3, X = 2, Y = 1\<rparr>)) \<notin> fst ` set (map_table empty_archive)"
    by (simp_all add: empty_archive_def driver_call_def)
  have g1: "has_schema io_failure"
    by (simp add: io_failure_def)
  have g2: "snd (fst (GetTile io_failure \<lparr>Z = 3, X = 2, Y = 1\<rparr>)) =
      Some (DriverError ''disk I/O error'')"
    by (simp add: io_failure_def GetTile_def query_tile_data_def driver_call_def)
  from C8_absent_tile_is_not_an_error [OF h1, of "\<lparr>Z = 3, X = 2, Y = 1\<rparr>"] h2 h3
  have a: "fst (GetTile empty_archive \<lparr>Z = 3, X = 2, Y = 1\<rparr>) =
     (Some \<lparr>Tile = \<lparr>Z = 3, X = 2, Y = 1\<rparr>, Data = None\<rparr>, None)"
    by blast
  from C8_absent_tile_is_not_an_error [OF g1, of "\<lparr>Z = 3, X = 2, Y = 1\<rparr>"] g2
  have b: "fst (fst (GetTile io_failure \<lparr>Z = 3, X = 2, Y = 1\<rparr>)) = None \<and>
           (\<exists>msg. fst (driver_call io_failure) = Some msg \<and>
                  DriverError ''disk I/O error'' = DriverError msg)"
    by blast
  from h1 h2 h3 a g1 g2 b show ?thesis
    by simp
qed

section \<open>The merger\<close>

lemma read_inputs_zooms_zero:
  "read_inputs P i inputs (b0, 0, 0) = Inr (b1, zmin, zmax) \<Longrightarrow> zmin = 0 \<and> zmax = 0"
proof (induction inputs arbitrary: i b0)
  case Nil
  then show ?case by simp
next
  case (Cons inp rest)
  from Cons.prems obtain b z1 z2 where
    "read_inputs P (Suc i) rest
       (if i = 0 then b else union P b0 b, min 0 z1, min 0 z2) = Inr (b1, zmin, zmax)"
    by (auto split: sum.splits)
  then have "read_inputs P (Suc i) rest (if i = 0 then b else union P b0 b, 0, 0) =
      Inr (b1, zmin, zmax)"
    by (simp add: min_def)
  then show ?case
    by (rule Cons.IH)
qed

text \<open>
  C5, at two sources whose metadata report the zoom ranges [1, 2] and [3, 4]: the first loop
  of \<open>main\<close> ends with \<open>outputMinZoom = 0\<close> and \<open>outputMaxZoom = 0\<close>, and the metadata of the
  merged archive say minzoom 0 and maxzoom 0, where the claim has 1 and 4. Both variables
  start at zero and both are folded with \<open>min\<close>.
\<close>

theorem C5_merge_zoom_range_is_zero:
  "read_inputs example_platform 0 [source_a, source_b] (zero_bound, 0, 0) =
     Inr (zero_bound, 0, 0) \<and>
   fst (merge_main example_platform ''out.mbtiles'' False new_file [source_a, source_b]) = Done \<and>
   metadata_table
     (snd (merge_main example_platform ''out.mbtiles'' False new_file [source_a, source_b])) =
     [(''bounds'', ''0.000000,0.000000,0.000000,0.000000''),
      (''center'', ''0.000000,0.000000''), (''minzoom'', ''0''), (''maxzoom'', ''0'')]"
  by code_simp

text \<open>
  C7, at a source with two tiles and at an output file on a failing disk: the closure drops
  the error that \<open>Save\<close> returns, so the merge runs to its end. In the first run the second
  \<open>Save\<close> fails and the output holds one tile of the two; in the second run the only \<open>Save\<close>
  fails at the driver and the output holds none.
\<close>

theorem C7_merge_drops_save_errors:
  "fst (Save example_platform \<lparr>mX = 1, mY = 1, mZ = 1\<rparr> (Some [2])
          (snd (Save example_platform \<lparr>mX = 0, mY = 1, mZ = 1\<rparr> (Some [1])
                  (snd (CreateTiles (NewMbtilesOutputter new_file 1000 zero_bound 0 0)))))) =
     Returns (Some (MetadataKeyError ''bounds'' (DriverError ''database is locked''))) \<and>
   merge_main example_platform ''out.mbtiles'' False new_file [source_two_tiles] =
     (Done,
      \<lparr>has_schema = True,
       map_table = [((1, 0, 0), ''55a54008ad1ba589aa210d2629c1df41'')],
       images_table = [(''55a54008ad1ba589aa210d2629c1df41'', [1])],
       metadata_table =
         [(''bounds'', ''0.000000,0.000000,0.000000,0.000000''),
          (''center'', ''0.000000,0.000000''), (''minzoom'', ''0''), (''maxzoom'', ''0'')],
       faults = [], commits = 1\<rparr>) \<and>
   merge_main example_platform ''out.mbtiles'' False failing_disk [source_a] =
     (Done,
      \<lparr>has_schema = True, map_table = [], images_table = [],
       metadata_table =
         [(''bounds'', ''0.000000,0.000000,0.000000,0.000000''),
          (''center'', ''0.000000,0.000000''), (''minzoom'', ''0''), (''maxzoom'', ''0'')],
       faults = [], commits = 1\<rparr>)"
  by code_simp

end
